theory Spec2Isabelle
  imports Main "HOL-Library.Word"
begin

unbundle bit_operations_syntax

section \<open>The value node of choc::json (choc\_JSONValue.h)\<close>

text \<open>
  The class \<open>choc::json::Value\<close> is a tagged union: a one-byte \<open>Type\<close> tag and a
  payload \<open>Data\<close>.  The embedding keeps one constructor per tag.  The payloads are
  \<^item> \<open>int32_t\<close> and \<open>int64_t\<close> as 32 and 64 bit words (read with \<open>sint\<close>);
  \<^item> \<open>double\<close> as the 64 bits of its IEEE-754 binary64 encoding;
  \<^item> both string forms as the bytes they hold;
  \<^item> \<open>ArrayData\<close> as the list of the live elements \<open>elements[0 .. numElements)\<close>
    together with the \<open>uint32_t capacity\<close>; \<open>numElements\<close> is the length of that list;
  \<^item> \<open>ObjectData\<close> as the list of the live members (key and value) in storage order
    together with the capacity.
  Slots between the used count and the capacity are uninitialised memory and are not
  represented.
\<close>

datatype Type =
    T_undefined | T_null | T_bool | T_int32 | T_int64 | T_double
  | T_shortString | T_longString | T_array | T_object

datatype Value =
    Undefined
  | Null
  | Bool bool
  | Int32 "32 word"
  | Int64 "64 word"
  | Double "64 word"
  | ShortString string
  | LongString string
  | Array "Value list" "32 word"
  | Object "(string \<times> Value) list" "32 word"

text \<open>
  The messages of \<open>throwError\<close>, grouped by the kind of failure:
  "Value is not a ..." is \<open>TypeMismatch\<close>, "... out of bounds" is \<open>IndexOutOfBounds\<close>,
  "Object member not found" is \<open>MemberNotFound\<close>, "Value does not have a size" is
  \<open>NotSizeable\<close>, "Failed to allocate memory ..." is \<open>AllocationFailure\<close>.
\<close>

datatype error =
  TypeMismatch | IndexOutOfBounds | MemberNotFound | NotSizeable | AllocationFailure

definition shortStringMaxSize :: nat where
  "shortStringMaxSize = 22"

fun type :: "Value \<Rightarrow> Type" where
  "type Undefined = T_undefined"
| "type Null = T_null"
| "type (Bool _) = T_bool"
| "type (Int32 _) = T_int32"
| "type (Int64 _) = T_int64"
| "type (Double _) = T_double"
| "type (ShortString _) = T_shortString"
| "type (LongString _) = T_longString"
| "type (Array _ _) = T_array"
| "type (Object _ _) = T_object"

subsection \<open>Type predicates\<close>

definition isUndefined :: "Value \<Rightarrow> bool" where "isUndefined v = (type v = T_undefined)"
definition isNull :: "Value \<Rightarrow> bool" where "isNull v = (type v = T_null)"
definition isVoid :: "Value \<Rightarrow> bool" where "isVoid v = (isUndefined v \<or> isNull v)"
definition isBool :: "Value \<Rightarrow> bool" where "isBool v = (type v = T_bool)"
definition isInt32 :: "Value \<Rightarrow> bool" where "isInt32 v = (type v = T_int32)"
definition isInt64 :: "Value \<Rightarrow> bool" where "isInt64 v = (type v = T_int64)"
definition isInt :: "Value \<Rightarrow> bool" where "isInt v = (isInt32 v \<or> isInt64 v)"
definition isFloat :: "Value \<Rightarrow> bool" where "isFloat v = (type v = T_double)"
definition isString :: "Value \<Rightarrow> bool" where
  "isString v = (type v = T_shortString \<or> type v = T_longString)"
definition isArray :: "Value \<Rightarrow> bool" where "isArray v = (type v = T_array)"
definition isObject :: "Value \<Rightarrow> bool" where "isObject v = (type v = T_object)"

subsection \<open>Constructors and factory functions\<close>

text \<open>\<open>Value (std::string_view)\<close> chooses the inline form up to 22 bytes.\<close>

definition Value_string :: "string \<Rightarrow> Value" where
  "Value_string val =
     (if length val \<le> shortStringMaxSize then ShortString val else LongString val)"

definition createNull :: Value where "createNull = Null"
definition createBool :: "bool \<Rightarrow> Value" where "createBool val = Bool val"
definition createInt :: "64 word \<Rightarrow> Value" where "createInt val = Int64 val"
definition createFloat :: "64 word \<Rightarrow> Value" where "createFloat val = Double val"
definition createString :: "string \<Rightarrow> Value" where "createString val = Value_string val"
definition createEmptyArray :: Value where "createEmptyArray = Array [] 0"
definition createObject :: Value where "createObject = Object [] 0"

subsection \<open>Typed getters\<close>

definition getBool :: "Value \<Rightarrow> error + bool" where
  "getBool v = (case v of Bool b \<Rightarrow> Inr b | _ \<Rightarrow> Inl TypeMismatch)"

definition getInt32 :: "Value \<Rightarrow> error + 32 word" where
  "getInt32 v = (case v of Int32 i \<Rightarrow> Inr i | _ \<Rightarrow> Inl TypeMismatch)"

definition getInt64 :: "Value \<Rightarrow> error + 64 word" where
  "getInt64 v = (case v of Int64 i \<Rightarrow> Inr i | _ \<Rightarrow> Inl TypeMismatch)"

text \<open>\<open>getInt\<close> returns \<open>int64_t\<close>: the 32-bit payload is sign-extended.\<close>

definition getInt :: "Value \<Rightarrow> error + 64 word" where
  "getInt v =
     (if isInt32 v
      then (case getInt32 v of Inl e \<Rightarrow> Inl e | Inr i \<Rightarrow> Inr (scast i))
      else getInt64 v)"

definition getFloat64 :: "Value \<Rightarrow> error + 64 word" where
  "getFloat64 v = (case v of Double d \<Rightarrow> Inr d | _ \<Rightarrow> Inl TypeMismatch)"

text \<open>
  \<open>getFloat32\<close> is \<open>static_cast<float> (getFloat64())\<close>.  The narrowing conversion from
  binary64 to binary32 is the platform's; it is the parameter \<open>narrow\<close>.
\<close>

definition getFloat32 :: "(64 word \<Rightarrow> 32 word) \<Rightarrow> Value \<Rightarrow> error + 32 word" where
  "getFloat32 narrow v =
     (case getFloat64 v of Inl e \<Rightarrow> Inl e | Inr d \<Rightarrow> Inr (narrow d))"

definition getString :: "Value \<Rightarrow> error + string" where
  "getString v =
     (case v of ShortString s \<Rightarrow> Inr s | LongString s \<Rightarrow> Inr s | _ \<Rightarrow> Inl TypeMismatch)"

subsection \<open>getWithDefault\<close>

text \<open>
  \<open>getWithDefault<T> (T defaultValue)\<close> is a template; each \<open>if constexpr\<close> branch is
  one constructor of the request, which carries the default handed in, and the result
  comes back under the same constructor.  \<open>AsOther\<close> stands for every other \<open>T\<close>.
\<close>

datatype 'a Requested =
    AsBool bool
  | AsInt32 "32 word"
  | AsInt64 "64 word"
  | AsFloat "32 word"
  | AsDouble "64 word"
  | AsString string
  | AsOther 'a

fun getWithDefault ::
  "(64 word \<Rightarrow> 32 word) \<Rightarrow> 'a Requested \<Rightarrow> Value \<Rightarrow> error + 'a Requested" where
  "getWithDefault narrow (AsBool defaultValue) v =
     (if isBool v then map_sum id AsBool (getBool v) else Inr (AsBool defaultValue))"
| "getWithDefault narrow (AsInt32 defaultValue) v =
     (if isInt32 v then map_sum id AsInt32 (getInt32 v) else Inr (AsInt32 defaultValue))"
| "getWithDefault narrow (AsInt64 defaultValue) v =
     (if isInt64 v then map_sum id AsInt64 (getInt64 v)
      else if isInt32 v then map_sum id (\<lambda>i. AsInt64 (scast i)) (getInt32 v)
      else Inr (AsInt64 defaultValue))"
| "getWithDefault narrow (AsFloat defaultValue) v =
     (if isFloat v then map_sum id AsFloat (getFloat32 narrow v)
      else Inr (AsFloat defaultValue))"
| "getWithDefault narrow (AsDouble defaultValue) v =
     (if isFloat v then map_sum id AsDouble (getFloat64 v) else Inr (AsDouble defaultValue))"
| "getWithDefault narrow (AsString defaultValue) v =
     (if isString v then map_sum id AsString (getString v)
      else Inr (AsString defaultValue))"
| "getWithDefault narrow (AsOther defaultValue) v = Inr (AsOther defaultValue)"

subsection \<open>Sizes\<close>

text \<open>
  \<open>size()\<close> returns \<open>uint32_t\<close>; the length of a long string is a \<open>size_t\<close> that the
  source casts down.
\<close>

definition size_of :: "Value \<Rightarrow> error + 32 word" where
  "size_of v =
     (case v of
        ShortString s \<Rightarrow> Inr (of_nat (length s))
      | LongString s \<Rightarrow> Inr (of_nat (length s))
      | Array xs c \<Rightarrow> Inr (of_nat (length xs))
      | Object ms c \<Rightarrow> Inr (of_nat (length ms))
      | _ \<Rightarrow> Inl NotSizeable)"

definition empty_of :: "Value \<Rightarrow> bool" where
  "empty_of v =
     (case v of
        ShortString s \<Rightarrow> length s = 0
      | LongString s \<Rightarrow> length s = 0
      | Array xs c \<Rightarrow> length xs = 0
      | Object ms c \<Rightarrow> length ms = 0
      | Undefined \<Rightarrow> True
      | Null \<Rightarrow> True
      | _ \<Rightarrow> False)"

subsection \<open>Doubles\<close>

text \<open>
  A double is NaN when its exponent field is all ones and its fraction is not zero.
  The comparison \<open>==\<close> of two doubles is false when either is NaN, true for the two
  zeros, and otherwise compares the encodings.
\<close>

definition isNaN :: "64 word \<Rightarrow> bool" where
  "isNaN d = (0x7FF0000000000000 < (d AND 0x7FFFFFFFFFFFFFFF))"

definition double_eq :: "64 word \<Rightarrow> 64 word \<Rightarrow> bool" where
  "double_eq a b =
     (\<not> isNaN a \<and> \<not> isNaN b
      \<and> (a = b \<or> (a AND 0x7FFFFFFFFFFFFFFF = 0 \<and> b AND 0x7FFFFFFFFFFFFFFF = 0)))"

fun bitlen :: "nat \<Rightarrow> nat" where
  "bitlen n = (if n = 0 then 0 else Suc (bitlen (n div 2)))"

text \<open>
  \<open>static_cast<double>\<close> of an \<open>int64_t\<close>, rounding to nearest, ties to even (the
  IEEE-754 default): the magnitude \<open>m\<close> has its top bit at position \<open>e\<close>; up to 53
  bits it is exact, beyond that the low \<open>e - 52\<close> bits are rounded away.
\<close>

definition roundMantissa :: "nat \<Rightarrow> nat \<Rightarrow> nat \<times> nat" where
  "roundMantissa m e =
     (if e \<le> 52 then (m * 2 ^ (52 - e), e)
      else
        let sh = e - 52;
            q0 = m div 2 ^ sh;
            r = m mod 2 ^ sh;
            half = 2 ^ (sh - 1);
            q1 = (if half < r \<or> (r = half \<and> odd q0) then q0 + 1 else q0)
        in if q1 = 2 ^ 53 then (2 ^ 52, e + 1) else (q1, e))"

definition int64_to_double :: "64 word \<Rightarrow> 64 word" where
  "int64_to_double w =
     (let i = sint w; m = nat \<bar>i\<bar> in
      if m = 0 then 0
      else
        let (q, e) = roundMantissa m (bitlen m - 1)
        in (if i < 0 then 0x8000000000000000 else 0)
           + of_nat ((e + 1023) * 2 ^ 52 + (q - 2 ^ 52)))"

subsection \<open>Equality\<close>

text \<open>
  The operand of the numeric comparison:
  \<open>isFloat() ? getFloat64() : static_cast<double> (getInt())\<close>.
\<close>

definition numericValue :: "Value \<Rightarrow> error + 64 word" where
  "numericValue v =
     (if isFloat v then getFloat64 v
      else (case getInt v of Inl e \<Rightarrow> Inl e | Inr i \<Rightarrow> Inr (int64_to_double i)))"

text \<open>\<open>std::memcmp (a, b, n) == 0\<close> on two buffers that hold at least \<open>n\<close> bytes.\<close>

definition memcmp_eq :: "string \<Rightarrow> string \<Rightarrow> nat \<Rightarrow> bool" where
  "memcmp_eq a b n = (take n a = take n b)"

text \<open>\<open>findObjectMember\<close>'s loop: the first index whose key matches, else the count.\<close>

fun findIndex :: "string \<Rightarrow> (string \<times> 'a) list \<Rightarrow> nat" where
  "findIndex key [] = 0"
| "findIndex key (m # ms) = (if fst m = key then 0 else Suc (findIndex key ms))"

definition findObjectMember :: "string \<Rightarrow> Value \<Rightarrow> nat" where
  "findObjectMember key v = (case v of Object ms c \<Rightarrow> findIndex key ms | _ \<Rightarrow> 0)"

text \<open>
  \<open>operator==\<close>.  The two loops of the array and of the object case are
  \<open>equalsElements\<close> and \<open>equalsMembers\<close>; the latter walks the members of the left
  operand and looks each key up in the whole member list of the right operand.
\<close>

fun equals :: "Value \<Rightarrow> Value \<Rightarrow> bool"
and equalsElements :: "Value list \<Rightarrow> Value list \<Rightarrow> bool"
and equalsMembers :: "(string \<times> Value) list \<Rightarrow> (string \<times> Value) list \<Rightarrow> bool" where
  "equals this other =
     (if (isInt this \<or> isFloat this) \<and> (isInt other \<or> isFloat other)
      then (case (numericValue this, numericValue other) of
              (Inr thisVal, Inr otherVal) \<Rightarrow> double_eq thisVal otherVal
            | _ \<Rightarrow> False)
      else if type this \<noteq> type other then False
      else (case this of
              Undefined \<Rightarrow> True
            | Null \<Rightarrow> True
            | Bool b \<Rightarrow> (case other of Bool b' \<Rightarrow> b = b' | _ \<Rightarrow> False)
            | Int32 _ \<Rightarrow> False
            | Int64 _ \<Rightarrow> False
            | Double _ \<Rightarrow> False
            | ShortString s \<Rightarrow>
                (case other of
                   ShortString t \<Rightarrow> length s = length t \<and> memcmp_eq s t (length s)
                 | _ \<Rightarrow> False)
            | LongString s \<Rightarrow>
                (case other of
                   LongString t \<Rightarrow> length s = length t \<and> memcmp_eq s t (length s)
                 | _ \<Rightarrow> False)
            | Array xs c \<Rightarrow>
                (case other of
                   Array ys d \<Rightarrow> if length xs \<noteq> length ys then False else equalsElements xs ys
                 | _ \<Rightarrow> False)
            | Object ms c \<Rightarrow>
                (case other of
                   Object ns d \<Rightarrow> if length ms \<noteq> length ns then False else equalsMembers ms ns
                 | _ \<Rightarrow> False)))"
| "equalsElements (x # xs) (y # ys) = (if \<not> equals x y then False else equalsElements xs ys)"
| "equalsElements [] ys = True"
| "equalsElements xs [] = True"
| "equalsMembers ((key, val) # ms) otherMembers =
     (let otherIndex = findIndex key otherMembers in
      if length otherMembers \<le> otherIndex
         \<or> \<not> equals val (snd (otherMembers ! otherIndex))
      then False
      else equalsMembers ms otherMembers)"
| "equalsMembers [] otherMembers = True"

subsection \<open>Object lookups\<close>

definition hasObjectMember :: "string \<Rightarrow> Value \<Rightarrow> bool" where
  "hasObjectMember key v =
     (case v of Object ms c \<Rightarrow> findObjectMember key v < length ms | _ \<Rightarrow> False)"

definition getObjectMemberAt :: "32 word \<Rightarrow> Value \<Rightarrow> error + (string \<times> Value)" where
  "getObjectMemberAt index v =
     (case v of
        Object ms c \<Rightarrow>
          if length ms \<le> unat index then Inl IndexOutOfBounds else Inr (ms ! unat index)
      | _ \<Rightarrow> Inl TypeMismatch)"
subsection \<open>Storage\<close>

text \<open>
  The fields of \<open>data.arrayData\<close> and \<open>data.objectData\<close>.  The source reads them only
  under the matching tag; \<open>numElements\<close> and \<open>numMembers\<close> are the lengths of the lists.
\<close>

fun elements :: "Value \<Rightarrow> Value list" where
  "elements (Array xs c) = xs"
| "elements _ = []"

fun arrayCapacity :: "Value \<Rightarrow> 32 word" where
  "arrayCapacity (Array xs c) = c"
| "arrayCapacity _ = 0"

fun members :: "Value \<Rightarrow> (string \<times> Value) list" where
  "members (Object ms c) = ms"
| "members _ = []"

fun objectCapacity :: "Value \<Rightarrow> 32 word" where
  "objectCapacity (Object ms c) = c"
| "objectCapacity _ = 0"

text \<open>
  \<open>sizeof (Value)\<close> is 24 and \<open>sizeof (Member)\<close> is 48 (a 24-byte key and a value).
  Whether \<open>std::realloc\<close> grants a request of a given number of bytes is decided by the
  environment: it is the parameter \<open>alloc\<close> of every operation that can grow storage.
\<close>

definition sizeof_Value :: nat where "sizeof_Value = 24"
definition sizeof_Member :: nat where "sizeof_Member = 48"

type_synonym allocator = "nat \<Rightarrow> bool"

text \<open>
  A mutating member function returns the node as it is left behind, together with
  either the error thrown or the value returned.
\<close>

definition reset :: "Value \<Rightarrow> Value" where
  "reset v = Undefined"

definition ensureArray :: "Value \<Rightarrow> Value" where
  "ensureArray v = (if type v \<noteq> T_array then Array [] 0 else v)"

definition ensureObject :: "Value \<Rightarrow> Value" where
  "ensureObject v = (if type v \<noteq> T_object then Object [] 0 else v)"

definition reserveArray :: "allocator \<Rightarrow> 32 word \<Rightarrow> Value \<Rightarrow> Value \<times> (error + unit)" where
  "reserveArray alloc capacity v =
     (let v1 = ensureArray v in
      if capacity \<le> arrayCapacity v1 then (v1, Inr ())
      else if \<not> alloc (unat capacity * sizeof_Value) then (v1, Inl AllocationFailure)
      else (Array (elements v1) capacity, Inr ()))"

definition reserveObject :: "allocator \<Rightarrow> 32 word \<Rightarrow> Value \<Rightarrow> Value \<times> (error + unit)" where
  "reserveObject alloc capacity v =
     (let v1 = ensureObject v in
      if capacity \<le> objectCapacity v1 then (v1, Inr ())
      else if \<not> alloc (unat capacity * sizeof_Member) then (v1, Inl AllocationFailure)
      else (Object (members v1) capacity, Inr ()))"

subsection \<open>Array operations\<close>

definition addArrayElement :: "allocator \<Rightarrow> Value \<Rightarrow> Value \<Rightarrow> Value \<times> (error + unit)" where
  "addArrayElement alloc val v =
     (let v1 = ensureArray v;
          (v2, r) = (if unat (arrayCapacity v1) \<le> length (elements v1)
                     then reserveArray alloc ((arrayCapacity v1 + 8) AND NOT 7) v1
                     else (v1, Inr ()))
      in case r of
           Inl e \<Rightarrow> (v2, Inl e)
         | Inr _ \<Rightarrow> (Array (elements v2 @ [val]) (arrayCapacity v2), Inr ()))"

text \<open>
  \<open>std::memmove\<close> inside one buffer of slots: \<open>count\<close> slots starting at \<open>src\<close> are
  copied to the slots starting at \<open>dst\<close>; the ranges may overlap.
\<close>

definition memmove :: "'a list \<Rightarrow> nat \<Rightarrow> nat \<Rightarrow> nat \<Rightarrow> 'a list" where
  "memmove buf dst src count =
     take dst buf @ take count (drop src buf) @ drop (dst + count) buf"

text \<open>
  \<open>splice (index, deleteCount)\<close> is \<open>splice_remove\<close> here, since \<open>splice\<close> is a
  list function of the library.  Its loop that moves the removed elements out: the argument of
  \<open>addArrayElement\<close> is move-constructed from \<open>elements[index + i]\<close>, which leaves that
  slot undefined, and is then appended to \<open>result\<close>.
\<close>

function spliceMoveOut ::
  "allocator \<Rightarrow> nat \<Rightarrow> nat \<Rightarrow> nat \<Rightarrow> Value \<Rightarrow> Value list
     \<Rightarrow> Value \<times> Value list \<times> (error + unit)" where
  "spliceMoveOut alloc index deleteCount i result elems =
     (if i < deleteCount then
        (case addArrayElement alloc (elems ! (index + i)) result of
           (result', Inl e) \<Rightarrow> (result', elems[index + i := Undefined], Inl e)
         | (result', Inr _) \<Rightarrow>
             spliceMoveOut alloc index deleteCount (Suc i) result'
               (elems[index + i := Undefined]))
      else (result, elems, Inr ()))"
  by pat_completeness auto
termination
  by (relation "measure (\<lambda>(alloc, index, deleteCount, i, result, elems). deleteCount - i)")
     auto

definition splice_remove :: "allocator \<Rightarrow> 32 word \<Rightarrow> 32 word \<Rightarrow> Value \<Rightarrow> Value \<times> (error + Value)" where
  "splice_remove alloc index deleteCount v =
     (if type v \<noteq> T_array then (v, Inl TypeMismatch)
      else
        let result = createEmptyArray;
            numElements = length (elements v)
        in if numElements \<le> unat index then (v, Inr result)
           else
             let deleteCount = min (unat deleteCount) (numElements - unat index)
             in if deleteCount = 0 then (v, Inr result)
                else
                  (case reserveArray alloc (of_nat deleteCount) result of
                     (result1, Inl e) \<Rightarrow> (v, Inl e)
                   | (result1, Inr _) \<Rightarrow>
                       (case spliceMoveOut alloc (unat index) deleteCount 0 result1
                               (elements v) of
                          (result2, elems, Inl e) \<Rightarrow> (Array elems (arrayCapacity v), Inl e)
                        | (result2, elems, Inr _) \<Rightarrow>
                            (Array
                               (take (numElements - deleteCount)
                                  (memmove elems (unat index) (unat index + deleteCount)
                                     (numElements - unat index - deleteCount)))
                               (arrayCapacity v),
                             Inr result2))))"

text \<open>
  The variadic member functions take their parameter pack by forwarding reference
  (\<open>Elements&&...\<close>, \<open>Others&&...\<close>) and construct a \<open>Value\<close> from an argument only
  when they reach it.  An argument is therefore either a value that the call cannot
  change (a temporary, a primitive, or an lvalue that is no part of this container),
  or an lvalue inside the buffer of the very container the function is called on:
  \<open>a[i]\<close> for an array, \<open>obj[key]\<close> with the key at position \<open>i\<close> for an object,
  bound to slot \<open>i\<close> of the buffer when the call is made.  Reading the latter yields
  what the slot holds at the moment it is read.  Once the buffer has been
  reallocated the reference dangles, and reading it is undefined behaviour
  (\<open>None\<close>).  References to parts nested more deeply are not represented.
\<close>

datatype argument = ByValue Value | SlotRef nat | Dangling

fun invalidate :: "argument \<Rightarrow> argument" where
  "invalidate (SlotRef i) = Dangling"
| "invalidate a = a"

text \<open>
  \<open>readArgument slots a\<close>: the value an argument denotes when it is read, \<open>slots\<close>
  being the slots a reference can name.
\<close>

fun readArgument :: "Value list \<Rightarrow> argument \<Rightarrow> Value option" where
  "readArgument slots (ByValue x) = Some x"
| "readArgument slots (SlotRef i) = (if i < length slots then Some (slots ! i) else None)"
| "readArgument slots Dangling = None"

text \<open>
  The slots \<open>[0, n)\<close> of the buffer as \<open>splice (index, deleteCount)\<close> leaves them, \<open>n\<close>
  being the used count before the call.  It is the computation of \<open>splice_remove\<close>
  without the cut at the new used count: the slots past it keep what the move-out
  loop and \<open>memmove\<close> left there, and a reference bound before the call still names
  them.
\<close>

definition slotsAfterSplice :: "allocator \<Rightarrow> 32 word \<Rightarrow> 32 word \<Rightarrow> Value \<Rightarrow> Value list" where
  "slotsAfterSplice alloc index deleteCount v =
     (let numElements = length (elements v)
      in if numElements \<le> unat index then elements v
         else
           let deleteCount = min (unat deleteCount) (numElements - unat index)
           in if deleteCount = 0 then elements v
              else
                (case reserveArray alloc (of_nat deleteCount) createEmptyArray of
                   (result1, Inl e) \<Rightarrow> elements v
                 | (result1, Inr _) \<Rightarrow>
                     (case spliceMoveOut alloc (unat index) deleteCount 0 result1
                             (elements v) of
                        (result2, elems, Inl e) \<Rightarrow> elems
                      | (result2, elems, Inr _) \<Rightarrow>
                          memmove elems (unat index) (unat index + deleteCount)
                            (numElements - unat index - deleteCount))))"

text \<open>
  The lambda \<open>insertElement\<close> folded over the parameter pack:
  \<open>new (&elements[insertIndex++]) Value (Value (element))\<close> constructs the slot in
  place from the argument (the temporary is a prvalue of the same type and initialises
  the slot directly).  The constructor first runs the member initialiser
  \<open>type = Type::undefined\<close> and then \<open>copyFrom\<close>; when the argument is that very
  slot, \<open>copyFrom\<close> reads the type just written and the slot holds undefined.
  \<open>n\<close> is the used count when the call was made: references name the slots below it.
\<close>

fun insertElement :: "nat \<Rightarrow> Value list \<Rightarrow> nat \<Rightarrow> argument list \<Rightarrow> Value list option" where
  "insertElement n buf insertIndex [] = Some buf"
| "insertElement n buf insertIndex (element # rest) =
     (case (if element = SlotRef insertIndex \<and> insertIndex < n then Some Undefined
            else readArgument (take n buf) element) of
        None \<Rightarrow> None
      | Some x \<Rightarrow> insertElement n (buf[insertIndex := x]) (Suc insertIndex) rest)"

text \<open>
  \<open>splice (index, deleteCount, elementsToInsert...)\<close>.  \<open>newSize\<close> is cast to
  \<open>uint32_t\<close>.  The buffer is the slots left by the deletion followed by the
  uninitialised slots up to the capacity, which stand here as \<open>Undefined\<close> and are
  written before they are read.  A \<open>reserveArray\<close> that reallocates leaves every
  reference of the pack dangling.
\<close>

definition splice_insert ::
  "allocator \<Rightarrow> 32 word \<Rightarrow> 32 word \<Rightarrow> argument list \<Rightarrow> Value
     \<Rightarrow> (Value \<times> (error + Value)) option" where
  "splice_insert alloc index deleteCount elementsToInsert v =
     (if type v \<noteq> T_array then Some (v, Inl TypeMismatch)
      else
        (case splice_remove alloc index deleteCount v of
           (v1, Inl e) \<Rightarrow> Some (v1, Inl e)
         | (v1, Inr deletedElements) \<Rightarrow>
             let numToInsert = length elementsToInsert in
             if numToInsert \<noteq> 0 then
               let numElements = length (elements v1);
                   insertAt = (if numElements < unat index then numElements else unat index);
                   newSize = (numElements + numToInsert) mod 2 ^ 32;
                   (v2, r) = (if unat (arrayCapacity v1) < newSize
                              then reserveArray alloc (of_nat newSize) v1
                              else (v1, Inr ()))
               in case r of
                    Inl e \<Rightarrow> Some (v2, Inl e)
                  | Inr _ \<Rightarrow>
                      let n = length (elements v);
                          pack = (if arrayCapacity v2 \<noteq> arrayCapacity v1
                                  then map invalidate elementsToInsert
                                  else elementsToInsert);
                          buf = slotsAfterSplice alloc index deleteCount v
                                @ replicate (unat (arrayCapacity v2) - n) Undefined;
                          buf1 = (if insertAt < numElements
                                  then memmove buf (insertAt + numToInsert) insertAt
                                         (numElements - insertAt)
                                  else buf)
                      in (case insertElement n buf1 insertAt pack of
                            None \<Rightarrow> None
                          | Some buf2 \<Rightarrow>
                              Some (Array (take newSize buf2) (arrayCapacity v2),
                                    Inr deletedElements))
             else Some (v1, Inr deletedElements)))"

subsection \<open>Object operations\<close>

definition setObjectMember ::
  "allocator \<Rightarrow> string \<Rightarrow> Value \<Rightarrow> Value \<Rightarrow> Value \<times> (error + unit)" where
  "setObjectMember alloc key val v =
     (let v1 = ensureObject v;
          index = findObjectMember key v1
      in if index < length (members v1)
         then (Object ((members v1)[index := (fst (members v1 ! index), val)])
                 (objectCapacity v1), Inr ())
         else
           let (v2, r) = (if unat (objectCapacity v1) \<le> length (members v1)
                          then reserveObject alloc
                                 ((of_nat (length (members v1)) + 4) AND NOT 3) v1
                          else (v1, Inr ()))
           in case r of
                Inl e \<Rightarrow> (v2, Inl e)
              | Inr _ \<Rightarrow> (Object (members v2 @ [(key, val)]) (objectCapacity v2), Inr ()))"

definition setMember ::
  "allocator \<Rightarrow> string \<Rightarrow> Value \<Rightarrow> Value \<Rightarrow> Value \<times> (error + unit)" where
  "setMember alloc name newValue v = setObjectMember alloc name newValue v"

text \<open>
  \<open>addMember (name, value, others...)\<close>: the first value is taken by value, the rest
  of the pack by forwarding reference; \<open>others\<close> is that rest as a list of names and
  value arguments (the names are taken as the strings they hold).  The recursive call
  \<open>addMember (std::forward<Others> (others)...)\<close> constructs its by-value parameter
  from the next value argument at that moment, after \<open>setMember\<close> has run.  A
  reallocation of the member buffer during the call leaves the references that remain
  in the pack dangling.
\<close>

fun addMember ::
  "allocator \<Rightarrow> string \<Rightarrow> Value \<Rightarrow> (string \<times> argument) list \<Rightarrow> Value
     \<Rightarrow> (Value \<times> (error + unit)) option" where
  "addMember alloc name val others v =
     (let v1 = ensureObject v in
      case reserveObject alloc (of_nat (length (members v1) + 1 + length others)) v1 of
        (v2, Inl e) \<Rightarrow> Some (v2, Inl e)
      | (v2, Inr _) \<Rightarrow>
          (case setMember alloc name val v2 of
             (v3, Inl e) \<Rightarrow> Some (v3, Inl e)
           | (v3, Inr _) \<Rightarrow>
               (case others of
                  [] \<Rightarrow> Some (v3, Inr ())
                | (name', a) # rest \<Rightarrow>
                    let moved = (if type v = T_object
                                 then objectCapacity v3 \<noteq> objectCapacity v else True)
                    in (case readArgument (map snd (members v3))
                               (if moved then invalidate a else a) of
                          None \<Rightarrow> None
                        | Some val' \<Rightarrow>
                            addMember alloc name' val'
                              (if moved then map (\<lambda>(k, a). (k, invalidate a)) rest else rest)
                              v3))))"

subsection \<open>The specification of setMember\<close>

text \<open>
  This definition follows the words of the specification, not the source: if the name
  already exists, that member's value is overwritten in place; else a new member is
  appended.  The source's \<open>setObjectMember\<close> is compared with it below.
\<close>

definition spec_setMember ::
  "string \<Rightarrow> Value \<Rightarrow> (string \<times> Value) list \<Rightarrow> (string \<times> Value) list" where
  "spec_setMember name val ms =
     (if name \<in> fst ` set ms
      then map (\<lambda>m. if fst m = name then (fst m, val) else m) ms
      else ms @ [(name, val)])"

section \<open>The store\<close>

text \<open>
  Deep copy is a statement about memory: the copy must own buffers of its own.  Here
  the node is the 24 bytes of a \<open>Value\<close> as the source has them, with the pointers of
  \<open>LongStringData\<close>, \<open>ArrayData\<close> and \<open>ObjectData\<close> kept as addresses (0 is
  \<open>nullptr\<close>), and the heap maps an address to the buffer allocated there: the bytes
  of a long string, the live \<open>Value\<close> slots of an array buffer, or the live \<open>Member\<close>
  slots of an object buffer.  A \<open>MemberKey\<close> owns its bytes; it stands in the slot as
  the string it holds.
\<close>

type_synonym addr = nat

datatype node =
    NUndefined
  | NNull
  | NBool bool
  | NInt32 "32 word"
  | NInt64 "64 word"
  | NDouble "64 word"
  | NShortString string
  | NLongString addr nat
  | NArray addr nat "32 word"
  | NObject addr nat "32 word"

datatype block =
    Chars string
  | Slots "node list"
  | MemberSlots "(string \<times> node) list"

record heap =
  cells :: "addr \<Rightarrow> block option"
  brk :: addr

text \<open>
  \<open>std::malloc\<close> hands out the next unused address and is taken to succeed
  (\<open>copyFrom\<close> does not check its result); \<open>std::free\<close> drops the buffer;
  \<open>std::realloc\<close> is a \<open>free\<close> followed by a \<open>malloc\<close> holding the old contents.
\<close>

definition malloc :: "heap \<Rightarrow> block \<Rightarrow> heap \<times> addr" where
  "malloc h b = (h\<lparr>cells := (cells h)(brk h := Some b), brk := Suc (brk h)\<rparr>, brk h)"

definition free :: "heap \<Rightarrow> addr \<Rightarrow> heap" where
  "free h p = h\<lparr>cells := (cells h)(p := None)\<rparr>"

definition store :: "heap \<Rightarrow> addr \<Rightarrow> block \<Rightarrow> heap" where
  "store h p b = h\<lparr>cells := (cells h)(p := Some b)\<rparr>"

text \<open>
  Reading the live slots \<open>[0, num)\<close> behind a pointer.  Nothing is read when
  \<open>num = 0\<close>; a read through a pointer that holds no such buffer is undefined
  behaviour and yields \<open>None\<close>.
\<close>

definition readSlots :: "heap \<Rightarrow> addr \<Rightarrow> nat \<Rightarrow> node list option" where
  "readSlots h p num =
     (if num = 0 then Some []
      else (case cells h p of
              Some (Slots es) \<Rightarrow> if num \<le> length es then Some (take num es) else None
            | _ \<Rightarrow> None))"

definition readMemberSlots :: "heap \<Rightarrow> addr \<Rightarrow> nat \<Rightarrow> (string \<times> node) list option" where
  "readMemberSlots h p num =
     (if num = 0 then Some []
      else (case cells h p of
              Some (MemberSlots ms) \<Rightarrow> if num \<le> length ms then Some (take num ms) else None
            | _ \<Rightarrow> None))"

text \<open>
  \<open>copyFrom\<close>, with \<open>this\<close> returned as the new node.  The recursion follows the
  pointers of the heap and not a datatype, so it carries fuel; \<open>None\<close> is out of fuel
  or undefined behaviour.  The new buffer is allocated first and its slots are then
  copy-constructed one after the other (\<open>copyElements\<close>, \<open>copyMembers\<close>).
\<close>

function copyFrom :: "nat \<Rightarrow> heap \<Rightarrow> node \<Rightarrow> (heap \<times> node) option"
and copyElements :: "nat \<Rightarrow> heap \<Rightarrow> node list \<Rightarrow> (heap \<times> node list) option"
and copyMembers ::
  "nat \<Rightarrow> heap \<Rightarrow> (string \<times> node) list \<Rightarrow> (heap \<times> (string \<times> node) list) option" where
  "copyFrom 0 h other = None"
| "copyFrom (Suc fuel) h other =
     (case other of
        NLongString chars len \<Rightarrow>
          (case cells h chars of
             Some (Chars s) \<Rightarrow>
               (case malloc h (Chars (take len s)) of
                  (h1, p) \<Rightarrow> Some (h1, NLongString p len))
           | _ \<Rightarrow> None)
      | NArray elems numElements capacity \<Rightarrow>
          (case readSlots h elems numElements of
             None \<Rightarrow> None
           | Some es \<Rightarrow>
               (case malloc h (Slots []) of
                  (h1, p) \<Rightarrow>
                    (case copyElements fuel h1 es of
                       None \<Rightarrow> None
                     | Some (h2, es') \<Rightarrow>
                         Some (store h2 p (Slots es'), NArray p numElements capacity))))
      | NObject membs numMembers capacity \<Rightarrow>
          (case readMemberSlots h membs numMembers of
             None \<Rightarrow> None
           | Some ms \<Rightarrow>
               (case malloc h (MemberSlots []) of
                  (h1, p) \<Rightarrow>
                    (case copyMembers fuel h1 ms of
                       None \<Rightarrow> None
                     | Some (h2, ms') \<Rightarrow>
                         Some (store h2 p (MemberSlots ms'), NObject p numMembers capacity))))
      | _ \<Rightarrow> Some (h, other))"
| "copyElements fuel h [] = Some (h, [])"
| "copyElements fuel h (e # es) =
     (case copyFrom fuel h e of
        None \<Rightarrow> None
      | Some (h1, e') \<Rightarrow>
          (case copyElements fuel h1 es of
             None \<Rightarrow> None
           | Some (h2, es') \<Rightarrow> Some (h2, e' # es')))"
| "copyMembers fuel h [] = Some (h, [])"
| "copyMembers fuel h (m # ms) =
     (case copyFrom fuel h (snd m) of
        None \<Rightarrow> None
      | Some (h1, e') \<Rightarrow>
          (case copyMembers fuel h1 ms of
             None \<Rightarrow> None
           | Some (h2, ms') \<Rightarrow> Some (h2, (fst m, e') # ms')))"
  by pat_completeness auto
termination
  by (relation "measures
         [\<lambda>x. case x of Inl (f, h, n) \<Rightarrow> f
                       | Inr (Inl (f, h, es)) \<Rightarrow> f
                       | Inr (Inr (f, h, ms)) \<Rightarrow> f,
          \<lambda>x. case x of Inl (f, h, n) \<Rightarrow> 0
                       | Inr (Inl (f, h, es)) \<Rightarrow> Suc (length es)
                       | Inr (Inr (f, h, ms)) \<Rightarrow> Suc (length ms)]")
     auto

text \<open>
  The value a node holds in a heap: \<open>represents h n v\<close> reads \<open>n\<close> through its
  pointers and compares what it finds with the value \<open>v\<close> of the embedding above.
\<close>

fun represents :: "heap \<Rightarrow> node \<Rightarrow> Value \<Rightarrow> bool" where
  "represents h n Undefined = (n = NUndefined)"
| "represents h n Null = (n = NNull)"
| "represents h n (Bool b) = (n = NBool b)"
| "represents h n (Int32 i) = (n = NInt32 i)"
| "represents h n (Int64 i) = (n = NInt64 i)"
| "represents h n (Double d) = (n = NDouble d)"
| "represents h n (ShortString s) = (n = NShortString s)"
| "represents h n (LongString s) =
     (case n of
        NLongString p len \<Rightarrow> len = length s \<and> cells h p = Some (Chars s)
      | _ \<Rightarrow> False)"
| "represents h n (Array xs c) =
     (case n of
        NArray p num cap \<Rightarrow>
          num = length xs \<and> cap = c
          \<and> (case readSlots h p num of
                Some es \<Rightarrow> list_all2 (represents h) es xs
              | None \<Rightarrow> False)
      | _ \<Rightarrow> False)"
| "represents h n (Object mxs c) =
     (case n of
        NObject p num cap \<Rightarrow>
          num = length mxs \<and> cap = c
          \<and> (case readMemberSlots h p num of
                Some ms \<Rightarrow>
                  list_all2 (\<lambda>m mx. fst m = fst mx \<and> represents h (snd m) (snd mx)) ms mxs
              | None \<Rightarrow> False)
      | _ \<Rightarrow> False)"


text \<open>
  \<open>reset\<close>: the destructors of the live elements or members run first, then the
  buffer is freed.  The caller sets the tag to undefined.
\<close>

function st_reset :: "nat \<Rightarrow> heap \<Rightarrow> node \<Rightarrow> heap option"
and st_resetElements :: "nat \<Rightarrow> heap \<Rightarrow> node list \<Rightarrow> heap option"
and st_resetMembers :: "nat \<Rightarrow> heap \<Rightarrow> (string \<times> node) list \<Rightarrow> heap option" where
  "st_reset 0 h n = None"
| "st_reset (Suc fuel) h n =
     (case n of
        NLongString chars len \<Rightarrow> Some (free h chars)
      | NArray elems numElements capacity \<Rightarrow>
          (case readSlots h elems numElements of
             None \<Rightarrow> None
           | Some es \<Rightarrow>
               (case st_resetElements fuel h es of
                  None \<Rightarrow> None
                | Some h1 \<Rightarrow> Some (free h1 elems)))
      | NObject membs numMembers capacity \<Rightarrow>
          (case readMemberSlots h membs numMembers of
             None \<Rightarrow> None
           | Some ms \<Rightarrow>
               (case st_resetMembers fuel h ms of
                  None \<Rightarrow> None
                | Some h1 \<Rightarrow> Some (free h1 membs)))
      | _ \<Rightarrow> Some h)"
| "st_resetElements fuel h [] = Some h"
| "st_resetElements fuel h (e # es) =
     (case st_reset fuel h e of
        None \<Rightarrow> None
      | Some h1 \<Rightarrow> st_resetElements fuel h1 es)"
| "st_resetMembers fuel h [] = Some h"
| "st_resetMembers fuel h (m # ms) =
     (case st_reset fuel h (snd m) of
        None \<Rightarrow> None
      | Some h1 \<Rightarrow> st_resetMembers fuel h1 ms)"
  by pat_completeness auto
termination
  by (relation "measures
         [\<lambda>x. case x of Inl (f, h, n) \<Rightarrow> f
                       | Inr (Inl (f, h, es)) \<Rightarrow> f
                       | Inr (Inr (f, h, ms)) \<Rightarrow> f,
          \<lambda>x. case x of Inl (f, h, n) \<Rightarrow> 0
                       | Inr (Inl (f, h, es)) \<Rightarrow> Suc (length es)
                       | Inr (Inr (f, h, ms)) \<Rightarrow> Suc (length ms)]")
     auto

text \<open>
  Copy assignment, \<open>operator= (const Value&)\<close>, for two distinct objects
  (\<open>this != &other\<close>): \<open>reset()\<close> and then \<open>copyFrom (other)\<close>.  The copy
  constructor is \<open>copyFrom (other)\<close> alone.
\<close>

definition copyAssign :: "nat \<Rightarrow> heap \<Rightarrow> node \<Rightarrow> node \<Rightarrow> (heap \<times> node) option" where
  "copyAssign fuel h this other =
     (case st_reset fuel h this of
        None \<Rightarrow> None
      | Some h1 \<Rightarrow> copyFrom fuel h1 other)"






















text \<open>
  Relations between heaps used in the proofs: \<open>extends h h'\<close> keeps every buffer of
  \<open>h\<close>; \<open>same_below b h h'\<close> keeps every address below \<open>b\<close> as it is;
  \<open>closed_above b h\<close> says that the buffers at or past \<open>b\<close> point only at or past
  \<open>b\<close>.
\<close>

definition extends :: "heap \<Rightarrow> heap \<Rightarrow> bool" where
  "extends h h' = (\<forall>a. cells h a \<noteq> None \<longrightarrow> cells h' a = cells h a)"





section \<open>Properties\<close>

lemmas is_defs =
  isUndefined_def isNull_def isVoid_def isBool_def isInt32_def isInt64_def isInt_def
  isFloat_def isString_def isArray_def isObject_def

declare bitlen.simps [simp del]
declare equals.simps [simp del]

subsection \<open>Numeric equality\<close>


lemma equals_numeric:
  "isInt a \<or> isFloat a \<Longrightarrow> isInt b \<or> isFloat b \<Longrightarrow>
   numericValue a = Inr x \<Longrightarrow> numericValue b = Inr y \<Longrightarrow> equals a b = double_eq x y"
  by (subst equals.simps) simp









subsection \<open>getWithDefault\<close>

text \<open>
  Claim C7, as stated, has \<open>getWithDefault\<close> coerce between the integer and the
  floating-point tags.  It does not: asked for a double, a 32-bit integer node holding 5
  yields the default; asked for a 32-bit integer, a double node holding 5.0 yields the
  default.
\<close>

theorem getWithDefault_counterexample:
  "getWithDefault (\<lambda>d. 0) (AsDouble 0 :: unit Requested) (Int32 5) = Inr (AsDouble 0)
   \<and> getWithDefault (\<lambda>d. 0) (AsInt32 0 :: unit Requested) (Double 0x4014000000000000)
       = Inr (AsInt32 0)"
  by (simp add: is_defs)

text \<open>
  Claim C7, amended.  For every value and every requested result type,
  \<open>getWithDefault\<close> never fails.  It returns the held value when the active tag is the
  requested one (a boolean, a 32-bit integer, a 64-bit integer, a double, a string in
  either storage form); a request for \<open>float\<close> on a double node returns the double
  narrowed; a request for a 64-bit integer on a 32-bit integer node returns the held
  integer sign-extended.  In every other case, which includes every combination of an
  integer request with a double node and of a floating-point request with an integer
  node, it returns the default handed in.
\<close>

theorem getWithDefault_total:
  "getWithDefault narrow req v =
     Inr (case (req, v) of
            (AsBool d, Bool b) \<Rightarrow> AsBool b
          | (AsInt32 d, Int32 i) \<Rightarrow> AsInt32 i
          | (AsInt64 d, Int64 i) \<Rightarrow> AsInt64 i
          | (AsInt64 d, Int32 i) \<Rightarrow> AsInt64 (scast i)
          | (AsFloat d, Double x) \<Rightarrow> AsFloat (narrow x)
          | (AsDouble d, Double x) \<Rightarrow> AsDouble x
          | (AsString d, ShortString s) \<Rightarrow> AsString s
          | (AsString d, LongString s) \<Rightarrow> AsString s
          | _ \<Rightarrow> req)"
  by (cases req; cases v)
     (simp_all add: is_defs getBool_def getInt32_def getInt64_def getFloat32_def
        getFloat64_def getString_def)

subsection \<open>Object lookups\<close>

lemma findIndex_less: "findIndex k ms < length ms \<longleftrightarrow> k \<in> fst ` set ms"
  by (induction ms) auto

lemma findIndex_le: "findIndex k ms \<le> length ms"
  by (induction ms) auto

text \<open>
  Claim C8, as stated, lets \<open>getObjectMemberAt\<close> fail only with IndexOutOfBounds and
  not at all on a value that is not an object.  On the null value it fails with
  TypeMismatch.
\<close>

theorem getObjectMemberAt_counterexample:
  "getObjectMemberAt 0 Null = Inl TypeMismatch"
  by (simp add: getObjectMemberAt_def)

text \<open>
  Claim C8, amended.  \<open>hasObjectMember\<close> never fails: it is false on a value that is not
  an object and otherwise tells whether a member has the key.  \<open>getObjectMemberAt\<close>
  fails with TypeMismatch on a value that is not an object, fails with IndexOutOfBounds
  on an object when the index is at or beyond the member count, and otherwise returns
  the name and value of the member at that position.
\<close>

theorem object_lookups:
  "(\<not> isObject v \<longrightarrow>
       getObjectMemberAt i v = Inl TypeMismatch \<and> \<not> hasObjectMember k v)
   \<and> (\<forall>ms c. v = Object ms c \<longrightarrow>
         (length ms \<le> unat i \<longrightarrow> getObjectMemberAt i v = Inl IndexOutOfBounds)
       \<and> (unat i < length ms \<longrightarrow> getObjectMemberAt i v = Inr (ms ! unat i))
       \<and> hasObjectMember k v = (k \<in> fst ` set ms))"
  by (cases v)
     (simp_all add: is_defs getObjectMemberAt_def hasObjectMember_def findObjectMember_def
        findIndex_less)

theorem object_lookups_witness:
  "\<not> isObject (Int32 7)
   \<and> getObjectMemberAt 0 (Int32 7) = Inl TypeMismatch
   \<and> \<not> hasObjectMember ''a'' (Int32 7)
   \<and> getObjectMemberAt 1 (Object [(''a'', Int32 1)] 4) = Inl IndexOutOfBounds
   \<and> getObjectMemberAt 0 (Object [(''a'', Int32 1)] 4) = Inr (''a'', Int32 1)
   \<and> hasObjectMember ''a'' (Object [(''a'', Int32 1)] 4)
   \<and> \<not> hasObjectMember ''b'' (Object [(''a'', Int32 1)] 4)"
  using object_lookups [of "Int32 7" 0 "''a''"]
        object_lookups [of "Object [(''a'', Int32 1)] 4" 1 "''a''"]
        object_lookups [of "Object [(''a'', Int32 1)] 4" 0 "''b''"]
  by (simp add: is_defs)

subsection \<open>Reserving storage\<close>

lemma ensureArray_not_array: "type v \<noteq> T_array \<Longrightarrow> ensureArray v = Array [] 0"
  by (simp add: ensureArray_def)

lemma ensureArray_Array [simp]: "ensureArray (Array xs c) = Array xs c"
  by (simp add: ensureArray_def)

lemma ensureObject_not_object: "type v \<noteq> T_object \<Longrightarrow> ensureObject v = Object [] 0"
  by (simp add: ensureObject_def)

lemma ensureObject_Object [simp]: "ensureObject (Object ms c) = Object ms c"
  by (simp add: ensureObject_def)

lemma reserveArray_Array:
  "reserveArray alloc n (Array xs c) =
     (if n \<le> c then (Array xs c, Inr ())
      else if alloc (unat n * sizeof_Value) then (Array xs n, Inr ())
      else (Array xs c, Inl AllocationFailure))"
  by (simp add: reserveArray_def)

lemma reserveObject_Object:
  "reserveObject alloc n (Object ms c) =
     (if n \<le> c then (Object ms c, Inr ())
      else if alloc (unat n * sizeof_Member) then (Object ms n, Inr ())
      else (Object ms c, Inl AllocationFailure))"
  by (simp add: reserveObject_def)

text \<open>
  Claim C10.  On a value that is not an array, \<open>reserveArray (n)\<close> never fails with
  TypeMismatch: the node is left as an empty array (its former payload is gone and
  \<open>size()\<close> is 0), and when the call returns the capacity is at least \<open>n\<close>; it
  returns whenever the allocation request is granted.  \<open>reserveObject\<close> does the same
  with an empty object on a value that is not an object.
\<close>

theorem reserve_converts:
  "(type v \<noteq> T_array \<longrightarrow>
      (\<exists>c. fst (reserveArray alloc n v) = Array [] c
           \<and> (snd (reserveArray alloc n v) = Inr () \<longrightarrow> n \<le> c))
      \<and> size_of (fst (reserveArray alloc n v)) = Inr 0
      \<and> snd (reserveArray alloc n v) \<noteq> Inl TypeMismatch
      \<and> (alloc (unat n * sizeof_Value) \<longrightarrow> snd (reserveArray alloc n v) = Inr ()))
   \<and> (type v \<noteq> T_object \<longrightarrow>
      (\<exists>c. fst (reserveObject alloc n v) = Object [] c
           \<and> (snd (reserveObject alloc n v) = Inr () \<longrightarrow> n \<le> c))
      \<and> size_of (fst (reserveObject alloc n v)) = Inr 0
      \<and> snd (reserveObject alloc n v) \<noteq> Inl TypeMismatch
      \<and> (alloc (unat n * sizeof_Member) \<longrightarrow> snd (reserveObject alloc n v) = Inr ()))"
proof -
  have a: "reserveArray alloc n v = reserveArray alloc n (Array [] 0)" if "type v \<noteq> T_array"
    using that by (simp add: reserveArray_def ensureArray_def)
  have b: "reserveObject alloc n v = reserveObject alloc n (Object [] 0)" if "type v \<noteq> T_object"
    using that by (simp add: reserveObject_def ensureObject_def)
  show ?thesis
    by (auto simp: a b reserveArray_Array reserveObject_Object size_of_def)
qed

theorem reserve_converts_witness:
  "type (LongString ''a string that is longer than 22'') \<noteq> T_array
   \<and> reserveArray (\<lambda>n. True) 5 (LongString ''a string that is longer than 22'')
       = (Array [] 5, Inr ())
   \<and> type (Array [Int32 1] 8) \<noteq> T_object
   \<and> reserveObject (\<lambda>n. True) 3 (Array [Int32 1] 8) = (Object [] 3, Inr ())
   \<and> reserveArray (\<lambda>n. False) 5 (Object [(''a'', Null)] 4) = (Array [] 0, Inl AllocationFailure)"
  using reserve_converts [of "LongString ''a string that is longer than 22''" "\<lambda>n. True" 5]
        reserve_converts [of "Array [Int32 1] 8" "\<lambda>n. True" 3]
  by (simp add: reserveArray_def reserveObject_def ensureArray_def ensureObject_def)

subsection \<open>splice\<close>

lemma addArrayElement_room:
  "length xs < unat c \<Longrightarrow>
   addArrayElement alloc x (Array xs c) = (Array (xs @ [x]) c, Inr ())"
  by (simp add: addArrayElement_def)

lemma spliceMoveOut_ok:
  "result = Array res c \<Longrightarrow> i \<le> d \<Longrightarrow> length res + (d - i) \<le> unat c \<Longrightarrow>
   index + d \<le> length elems \<Longrightarrow>
   \<exists>elems'. spliceMoveOut alloc index d i result elems
              = (Array (res @ take (d - i) (drop (index + i) elems)) c, elems', Inr ())
     \<and> length elems' = length elems
     \<and> take index elems' = take index elems
     \<and> drop (index + d) elems' = drop (index + d) elems"
proof (induction alloc index d i result elems arbitrary: res rule: spliceMoveOut.induct)
  case (1 alloc index d i result elems)
  show ?case
  proof (cases "i < d")
    case False
    with "1.prems" show ?thesis
      by (subst spliceMoveOut.simps) simp
  next
    case True
    let ?x = "elems ! (index + i)"
    let ?elems2 = "elems[index + i := Undefined]"
    from True "1.prems" have room: "length res < unat c" by simp
    have add: "addArrayElement alloc ?x result = (Array (res @ [?x]) c, Inr ())"
      using room "1.prems"(1) by (simp add: addArrayElement_room)
    have "\<exists>elems'. spliceMoveOut alloc index d (Suc i) (Array (res @ [?x]) c) ?elems2
              = (Array ((res @ [?x]) @ take (d - Suc i) (drop (index + Suc i) ?elems2)) c,
                 elems', Inr ())
        \<and> length elems' = length ?elems2
        \<and> take index elems' = take index ?elems2
        \<and> drop (index + d) elems' = drop (index + d) ?elems2"
      using True "1.prems" by (intro "1.IH" [OF True add [symmetric] refl refl]) simp_all
    then obtain elems' where
      run: "spliceMoveOut alloc index d (Suc i) (Array (res @ [?x]) c) ?elems2
              = (Array ((res @ [?x]) @ take (d - Suc i) (drop (index + Suc i) ?elems2)) c,
                 elems', Inr ())"
      and len: "length elems' = length ?elems2"
      and tk: "take index elems' = take index ?elems2"
      and dr: "drop (index + d) elems' = drop (index + d) ?elems2"
      by blast
    from True "1.prems" have inr: "index + i < length elems" by simp
    have d1: "drop (index + Suc i) ?elems2 = drop (index + Suc i) elems"
      by simp
    have t1: "take (d - i) (drop (index + i) elems)
               = ?x # take (d - Suc i) (drop (index + Suc i) elems)"
    proof -
      from True have "d - i = Suc (d - Suc i)" by simp
      moreover have "drop (index + i) elems = ?x # drop (index + Suc i) elems"
        using inr by (simp add: Cons_nth_drop_Suc)
      ultimately show ?thesis by simp
    qed
    have step: "spliceMoveOut alloc index d i result elems
                 = spliceMoveOut alloc index d (Suc i) (Array (res @ [?x]) c) ?elems2"
      using True add by (subst spliceMoveOut.simps) simp
    have "spliceMoveOut alloc index d i result elems
            = (Array (res @ take (d - i) (drop (index + i) elems)) c, elems', Inr ())"
      using step run d1 t1 by simp
    moreover have "length elems' = length elems" using len by simp
    moreover have "take index elems' = take index elems" using tk by simp
    moreover have "drop (index + d) elems' = drop (index + d) elems"
      using dr True by simp
    ultimately show ?thesis by blast
  qed
qed

lemma memmove_close_gap:
  assumes "length elems' = length elems" and "index + d \<le> length elems"
    and "take index elems' = take index elems"
    and "drop (index + d) elems' = drop (index + d) elems"
  shows "take (length elems - d)
           (memmove elems' index (index + d) (length elems - index - d))
         = take index elems @ drop (index + d) elems"
  using assms by (simp add: memmove_def)

lemma unat_of_nat_le: "n \<le> unat (w :: 32 word) \<Longrightarrow> unat (of_nat n :: 32 word) = n"
  by (rule le_unat_uoi)

lemma splice_remove_eq:
  assumes alloc_ok:
    "length xs \<le> unat index \<or> min (unat deleteCount) (length xs - unat index) = 0
     \<or> alloc (min (unat deleteCount) (length xs - unat index) * sizeof_Value)"
  shows "splice_remove alloc index deleteCount (Array xs c) =
     (if length xs \<le> unat index then (Array xs c, Inr (Array [] 0))
      else
        let d = min (unat deleteCount) (length xs - unat index)
        in (Array (take (unat index) xs @ drop (unat index + d) xs) c,
            Inr (Array (take d (drop (unat index) xs)) (of_nat d))))"
proof (cases "length xs \<le> unat index")
  case True
  then show ?thesis by (simp add: splice_remove_def createEmptyArray_def)
next
  case False
  define d where "d = min (unat deleteCount) (length xs - unat index)"
  show ?thesis
  proof (cases "d = 0")
    case True
    with False show ?thesis
      by (simp add: splice_remove_def createEmptyArray_def d_def [symmetric] Let_def)
  next
    case dpos: False
    have dle: "d \<le> unat deleteCount" by (simp add: d_def)
    have ud: "unat (of_nat d :: 32 word) = d" using dle by (rule unat_of_nat_le)
    have nz: "(of_nat d :: 32 word) \<noteq> 0" using ud dpos by (metis unat_0)
    have al: "alloc (d * sizeof_Value)" using alloc_ok False dpos unfolding d_def by blast
    have res: "reserveArray alloc (of_nat d) createEmptyArray = (Array [] (of_nat d), Inr ())"
      using nz al by (simp add: createEmptyArray_def reserveArray_Array ud word_le_0_iff)
    have bound: "unat index + d \<le> length xs" using False by (simp add: d_def)
    obtain elems' where
      run: "spliceMoveOut alloc (unat index) d 0 (Array [] (of_nat d)) xs
              = (Array ([] @ take (d - 0) (drop (unat index + 0) xs)) (of_nat d), elems', Inr ())"
      and len: "length elems' = length xs"
      and tk: "take (unat index) elems' = take (unat index) xs"
      and dr: "drop (unat index + d) elems' = drop (unat index + d) xs"
      using spliceMoveOut_ok [OF refl, of 0 d "[]" "of_nat d" "unat index" xs alloc] bound ud
      by auto
    have gap: "take (length xs - d) (memmove elems' (unat index) (unat index + d) (length xs - unat index - d))
         = take (unat index) xs @ drop (unat index + d) xs"
      by (rule memmove_close_gap [OF len bound tk dr])
    have "splice_remove alloc index deleteCount (Array xs c) =
            (Array (take (unat index) xs @ drop (unat index + d) xs) c,
             Inr (Array (take d (drop (unat index) xs)) (of_nat d)))"
      using False dpos res run gap
      by (simp add: splice_remove_def d_def [symmetric] Let_def)
    with False show ?thesis by (simp add: d_def [symmetric] Let_def)
  qed
qed

text \<open>
  Claim C2.  On an array with used count \<open>n\<close>, \<open>splice (index, deleteCount)\<close> returns
  an empty array and leaves the source unchanged when \<open>index \<ge> n\<close>.  Otherwise, with
  \<open>d = min (deleteCount, n - index)\<close>, it returns an array holding the former elements
  \<open>[index, index + d)\<close> in their order, the elements after the removed range are
  shifted left over the gap, and the used count of the source becomes \<open>n - d\<close>.  The
  one allocation the function makes (the result's storage, when \<open>d > 0\<close>) is taken to
  be granted.
\<close>

theorem splice_spec:
  assumes alloc_ok:
    "length xs \<le> unat index \<or> min (unat deleteCount) (length xs - unat index) = 0
     \<or> alloc (min (unat deleteCount) (length xs - unat index) * sizeof_Value)"
  shows "splice_remove alloc index deleteCount (Array xs c) =
     (if length xs \<le> unat index then (Array xs c, Inr (Array [] 0))
      else
        let d = min (unat deleteCount) (length xs - unat index)
        in (Array (take (unat index) xs @ drop (unat index + d) xs) c,
            Inr (Array (take d (drop (unat index) xs)) (of_nat d))))
   \<and> length (elements (fst (splice_remove alloc index deleteCount (Array xs c))))
       = (if length xs \<le> unat index then length xs
          else length xs - min (unat deleteCount) (length xs - unat index))"
proof -
  have eq: "splice_remove alloc index deleteCount (Array xs c) =
     (if length xs \<le> unat index then (Array xs c, Inr (Array [] 0))
      else
        let d = min (unat deleteCount) (length xs - unat index)
        in (Array (take (unat index) xs @ drop (unat index + d) xs) c,
            Inr (Array (take d (drop (unat index) xs)) (of_nat d))))"
    using alloc_ok by (rule splice_remove_eq)
  have "length (elements (fst (splice_remove alloc index deleteCount (Array xs c))))
       = (if length xs \<le> unat index then length xs
          else length xs - min (unat deleteCount) (length xs - unat index))"
    unfolding eq by (simp add: Let_def)
  with eq show ?thesis by blast
qed

text \<open>
  On \<open>[0..9]\<close> with index 2 and deleteCount 3 the call returns \<open>[2,3,4]\<close> and leaves
  \<open>[0,1,5,6,7,8,9]\<close>; with index 100 on a five-element array it returns the empty
  array and leaves the source as it was.
\<close>

theorem splice_spec_witness:
  "splice_remove (\<lambda>n. True) 2 3
     (Array [Int32 0, Int32 1, Int32 2, Int32 3, Int32 4, Int32 5, Int32 6, Int32 7,
             Int32 8, Int32 9] 16)
   = (Array [Int32 0, Int32 1, Int32 5, Int32 6, Int32 7, Int32 8, Int32 9] 16,
      Inr (Array [Int32 2, Int32 3, Int32 4] 3))
   \<and> splice_remove (\<lambda>n. True) 100 1 (Array [Int32 0, Int32 1, Int32 2, Int32 3, Int32 4] 8)
   = (Array [Int32 0, Int32 1, Int32 2, Int32 3, Int32 4] 8, Inr (Array [] 0))"
  using splice_spec [of "[Int32 0, Int32 1, Int32 2, Int32 3, Int32 4, Int32 5, Int32 6,
                          Int32 7, Int32 8, Int32 9]" 2 3 "\<lambda>n. True" 16]
        splice_spec [of "[Int32 0, Int32 1, Int32 2, Int32 3, Int32 4]" 100 1 "\<lambda>n. True" 8]
  by simp


lemma unat_of_nat_32: "n < 2 ^ 32 \<Longrightarrow> unat (of_nat n :: 32 word) = n"
  by (simp add: unat_of_nat)

lemma spliceMoveOut_length:
  "spliceMoveOut alloc index d i result elems = (result', elems', r) \<Longrightarrow>
   length elems' = length elems"
proof (induction alloc index d i result elems arbitrary: result' elems' r
         rule: spliceMoveOut.induct)
  case (1 alloc index d i result elems)
  show ?case
  proof (cases "i < d")
    case False
    with "1.prems" show ?thesis
      by (subst (asm) spliceMoveOut.simps) simp
  next
    case True
    obtain res1 e1 where add: "addArrayElement alloc (elems ! (index + i)) result = (res1, e1)"
      by (cases "addArrayElement alloc (elems ! (index + i)) result")
    show ?thesis
    proof (cases e1)
      case (Inl e)
      with True add "1.prems" show ?thesis
        by (subst (asm) spliceMoveOut.simps) auto
    next
      case (Inr u)
      with True add "1.prems"
      have "spliceMoveOut alloc index d (Suc i) res1 (elems[index + i := Undefined])
              = (result', elems', r)"
        by (subst (asm) spliceMoveOut.simps) simp
      from "1.IH" [OF True add [symmetric] Inr this] show ?thesis by simp
    qed
  qed
qed

lemma take_length_take: "take (length (take k xs)) xs = take k xs"
  by (cases "k \<le> length xs") (simp_all add: min_def)

lemma slotsAfterSplice_live:
  assumes del: "splice_remove alloc index deleteCount (Array xs c) = (Array rest c', Inr removed)"
  shows "length (slotsAfterSplice alloc index deleteCount (Array xs c)) = length xs
       \<and> take (length rest) (slotsAfterSplice alloc index deleteCount (Array xs c)) = rest"
proof (cases "length xs \<le> unat index")
  case True
  with del show ?thesis
    by (simp add: splice_remove_def slotsAfterSplice_def)
next
  case False
  define d where "d = min (unat deleteCount) (length xs - unat index)"
  show ?thesis
  proof (cases "d = 0")
    case True
    with False have dz: "unat deleteCount = 0"
      by (simp add: d_def min_def split: if_splits)
    with False del show ?thesis
      by (simp add: splice_remove_def slotsAfterSplice_def Let_def del: spliceMoveOut.simps)
  next
    case dpos: False
    obtain result1 r1 where res: "reserveArray alloc (of_nat d) createEmptyArray = (result1, r1)"
      by (cases "reserveArray alloc (of_nat d) createEmptyArray")
    show ?thesis
    proof (cases r1)
      case (Inl e)
      with False dpos res del show ?thesis
        by (simp add: splice_remove_def d_def [symmetric] Let_def del: spliceMoveOut.simps)
    next
      case (Inr u)
      obtain result2 elems r2 where
        run: "spliceMoveOut alloc (unat index) d 0 result1 xs = (result2, elems, r2)"
        by (cases "spliceMoveOut alloc (unat index) d 0 result1 xs") auto
      have len: "length elems = length xs" using run by (rule spliceMoveOut_length)
      have bound: "unat index + d \<le> length xs" using False by (simp add: d_def)
      let ?M = "memmove elems (unat index) (unat index + d) (length xs - unat index - d)"
      show ?thesis
      proof (cases r2)
        case (Inl e)
        with False dpos res Inr run del show ?thesis
          by (simp add: splice_remove_def d_def [symmetric] Let_def del: spliceMoveOut.simps)
      next
        case inr2: (Inr u2)
        from False dpos res Inr run inr2 del
        have rest: "rest = take (length xs - d) ?M"
          by (simp add: splice_remove_def d_def [symmetric] Let_def del: spliceMoveOut.simps)
        from False dpos res Inr run inr2
        have slots: "slotsAfterSplice alloc index deleteCount (Array xs c) = ?M"
          by (simp add: slotsAfterSplice_def d_def [symmetric] Let_def del: spliceMoveOut.simps)
        have "length ?M = length xs" using len bound by (simp add: memmove_def)
        moreover have "take (length rest) ?M = rest"
          unfolding rest by (rule take_length_take)
        ultimately show ?thesis using slots by simp
      qed
    qed
  qed
qed

lemma insertElement_ByValue:
  "i + length es \<le> length buf \<Longrightarrow>
   insertElement n buf i (map ByValue es) = Some (take i buf @ es @ drop (i + length es) buf)"
proof (induction es arbitrary: buf i)
  case Nil
  then show ?case by simp
next
  case (Cons e es)
  from Cons.prems have i: "i < length buf" by simp
  have "insertElement n (buf[i := e]) (Suc i) (map ByValue es)
          = Some (take (Suc i) (buf[i := e]) @ es @ drop (Suc i + length es) (buf[i := e]))"
    using Cons.prems by (intro Cons.IH) simp
  moreover have "take (Suc i) (buf[i := e]) = take i buf @ [e]"
    using i by (simp add: take_Suc_conv_app_nth)
  moreover have "drop (Suc i + length es) (buf[i := e]) = drop (Suc i + length es) buf"
    by simp
  ultimately show ?case by simp
qed

lemma insert_into_buffer:
  assumes live: "take (length rest) buf = rest"
    and i: "i \<le> length rest" and room: "length rest + length es \<le> length buf"
  shows "\<exists>buf2. insertElement n
              (if i < length rest
               then memmove buf (i + length es) i (length rest - i)
               else buf)
              i (map ByValue es) = Some buf2
          \<and> take (length rest + length es) buf2 = take i rest @ es @ drop i rest"
proof -
  let ?r = "length rest" and ?k = "length es"
  let ?buf1 = "if i < ?r then memmove buf (i + ?k) i (?r - i) else buf"
  have len1: "length ?buf1 = length buf" using room i by (simp add: memmove_def)
  have tk: "take i ?buf1 = take i rest"
  proof -
    have "take i ?buf1 = take i buf" using room i by (simp add: memmove_def)
    also have "\<dots> = take i (take ?r buf)" using i by (simp add: min_def)
    finally show ?thesis using live by simp
  qed
  have dr: "take (?r - i) (drop (i + ?k) ?buf1) = drop i rest"
  proof (cases "i < ?r")
    case True
    have "take (?r - i) (drop (i + ?k) (memmove buf (i + ?k) i (?r - i)))
            = take (?r - i) (drop i buf)"
      using room True by (simp add: memmove_def)
    also have "\<dots> = drop i (take ?r buf)" using True by (simp add: drop_take)
    finally show ?thesis using True live by simp
  next
    case False
    with i show ?thesis by simp
  qed
  have run: "insertElement n ?buf1 i (map ByValue es)
               = Some (take i ?buf1 @ es @ drop (i + ?k) ?buf1)"
    using len1 i room by (intro insertElement_ByValue) simp
  have "take (?r + ?k) (take i ?buf1 @ es @ drop (i + ?k) ?buf1)
          = take i rest @ es @ take (?r - i) (drop (i + ?k) ?buf1)"
    using tk i by simp
  with dr run show ?thesis by simp
qed


text \<open>
  When every argument of the pack is a value that the call cannot change, the
  insertion does what the deletion followed by a list insertion does: the removed
  elements are returned, and the arguments stand in order at \<open>index\<close>, clamped down
  to the used count left by the deletion, with the elements at or after that position
  shifted right intact.  The array satisfies used count \<open>\<le>\<close> capacity, the new used
  count fits \<open>uint32_t\<close>, and the growth of the storage, where one is needed, is
  granted.
\<close>

lemma invalidate_ByValue: "map invalidate (map ByValue es) = map ByValue es"
  by (induction es) simp_all

lemma splice_insert_by_value:
  assumes del: "splice_remove alloc index deleteCount (Array xs c) = (Array rest c, Inr removed)"
    and ne: "es \<noteq> []"
    and wf: "length xs \<le> unat c"
    and fits: "length rest + length es < 2 ^ 32"
    and alloc_ok: "length rest + length es \<le> unat c
                   \<or> alloc ((length rest + length es) * sizeof_Value)"
  shows "splice_insert alloc index deleteCount (map ByValue es) (Array xs c) =
     Some (let i = min (unat index) (length rest);
               c' = (if unat c < length rest + length es
                     then of_nat (length rest + length es) else c)
           in (Array (take i rest @ es @ drop i rest) c', Inr removed))"
proof -
  let ?n = "length rest"
  let ?k = "length es"
  let ?i = "if ?n < unat index then ?n else unat index"
  let ?c' = "if unat c < ?n + ?k then of_nat (?n + ?k) else c :: 32 word"
  let ?slots = "slotsAfterSplice alloc index deleteCount (Array xs c)"
  let ?buf = "?slots @ replicate (unat ?c' - length xs) Undefined"
  have newSize: "(?n + ?k) mod 2 ^ 32 = ?n + ?k" using fits by simp
  have un: "unat (of_nat (?n + ?k) :: 32 word) = ?n + ?k"
    using fits by (rule unat_of_nat_32)
  have grow: "(if unat c < ?n + ?k then reserveArray alloc (of_nat (?n + ?k)) (Array rest c)
               else (Array rest c, Inr ()))
             = (Array rest ?c', Inr ())"
    using alloc_ok un by (auto simp: reserveArray_Array word_le_nat_alt)
  have cap: "?n + ?k \<le> unat ?c'" using un by simp
  have capxs: "length xs \<le> unat ?c'" using wf un by simp
  from slotsAfterSplice_live [OF del]
  have slen: "length ?slots = length xs" and stake: "take ?n ?slots = rest"
    by simp_all
  have nle: "?n \<le> length xs"
  proof -
    have "length (take ?n ?slots) = ?n" using stake by simp
    then show ?thesis using slen by simp
  qed
  have live: "take ?n ?buf = rest" using stake slen nle by simp
  have ile: "?i \<le> ?n" by simp
  have room: "?n + ?k \<le> length ?buf" using cap capxs slen by simp
  obtain buf2 where
    run: "insertElement (length xs)
            (if ?i < ?n then memmove ?buf (?i + ?k) ?i (?n - ?i) else ?buf)
            ?i (map ByValue es) = Some buf2"
    and tk: "take (?n + ?k) buf2 = take ?i rest @ es @ drop ?i rest"
    using insert_into_buffer [OF live ile room] by blast
  have pack: "\<And>b. (if b then map invalidate (map ByValue es) else map ByValue es)
                = map ByValue es"
    by (simp add: invalidate_ByValue)
  have imin: "?i = min (unat index) ?n" by simp
  have "splice_insert alloc index deleteCount (map ByValue es) (Array xs c)
          = Some (Array (take ?i rest @ es @ drop ?i rest) ?c', Inr removed)"
    unfolding splice_insert_def del
    using ne
    by (simp only: type.simps if_False if_True simp_thms prod.case sum.case Let_def
          elements.simps arrayCapacity.simps newSize grow length_map pack run option.case tk
          length_0_conv refl)
  then show ?thesis unfolding imin Let_def .
qed

text \<open>
  Claim C3 does not hold of \<open>splice (index, deleteCount, e1, ..., ek)\<close> when an
  argument is an element of the array itself.  The pack is bound by reference and each
  argument is read only after the deletion, the growth of the storage and the shift to
  the right.  On \<open>a = [0,1,2]\<close> with capacity 8, \<open>a.splice (1, 0, a[2])\<close> binds the
  argument to slot 2, which holds 2 when the call is made; the shift moves 1 into that
  slot, and the call leaves \<open>[0,1,1,2]\<close>, where inserting the value 2 leaves
  \<open>[0,2,1,2]\<close>.  \<open>a.splice (0, 1, a[0])\<close> returns \<open>[0]\<close> and constructs slot 0
  from itself, which leaves \<open>[undefined,1,2]\<close>.
\<close>

theorem splice_insert_aliased:
  "splice_insert (\<lambda>n. True) 1 0 [SlotRef 2] (Array [Int32 0, Int32 1, Int32 2] 8)
     = Some (Array [Int32 0, Int32 1, Int32 1, Int32 2] 8, Inr (Array [] 0))
   \<and> readArgument (elements (Array [Int32 0, Int32 1, Int32 2] 8)) (SlotRef 2)
     = Some (Int32 2)
   \<and> splice_insert (\<lambda>n. True) 1 0 [ByValue (Int32 2)] (Array [Int32 0, Int32 1, Int32 2] 8)
     = Some (Array [Int32 0, Int32 2, Int32 1, Int32 2] 8, Inr (Array [] 0))
   \<and> splice_insert (\<lambda>n. True) 0 1 [SlotRef 0] (Array [Int32 0, Int32 1, Int32 2] 8)
     = Some (Array [Undefined, Int32 1, Int32 2] 8, Inr (Array [Int32 0] 1))"
  by (simp add: splice_insert_def splice_remove_def slotsAfterSplice_def createEmptyArray_def
        memmove_def reserveArray_def ensureArray_def addArrayElement_def isArray_def)

subsection \<open>setMember and addMember\<close>

lemma findObjectMember_Object [simp]: "findObjectMember k (Object ms c) = findIndex k ms"
  by (simp add: findObjectMember_def)

lemma findIndex_key: "findIndex k ms < length ms \<Longrightarrow> fst (ms ! findIndex k ms) = k"
  by (induction ms) (auto split: if_splits)

lemma findIndex_absent: "k \<notin> fst ` set ms \<Longrightarrow> findIndex k ms = length ms"
  by (induction ms) auto

lemma and_not_plus_and: "(x AND NOT m) + (x AND m) = (x :: 'a::len word)"
proof -
  have "(x AND NOT m) AND (x AND m) = 0"
    by (rule bit_eqI) (auto simp: bit_and_iff bit_not_iff)
  then have "(x AND NOT m) + (x AND m) = (x AND NOT m) OR (x AND m)"
    by (rule disjunctive_add_eq_or)
  also have "\<dots> = x"
    by (rule bit_eqI) (auto simp: bit_and_iff bit_or_iff bit_not_iff)
  finally show ?thesis .
qed

lemma unat_and_not_ge:
  "unat (x :: 'a::len word) - unat m \<le> unat (x AND NOT m)"
proof -
  have eq: "x AND NOT m = x - (x AND m)"
    using and_not_plus_and [of x m] by (simp add: algebra_simps)
  have "x AND m \<le> m" by (rule word_and_le1)
  then have le: "unat (x AND m) \<le> unat m" by (simp add: word_le_nat_alt)
  have "x AND m \<le> x" by (rule word_and_le2)
  then have "unat (x - (x AND m)) = unat x - unat (x AND m)" by (rule unat_sub)
  with eq le show ?thesis by simp
qed

lemma grow4_gt:
  assumes "n + 4 < 2 ^ 32"
  shows "n < unat (((of_nat n :: 32 word) + 4) AND NOT 3)"
proof -
  have un: "unat (of_nat n + 4 :: 32 word) = n + 4"
    using assms by (simp add: unat_word_ariths unat_of_nat)
  have "unat (of_nat n + 4 :: 32 word) - unat (3 :: 32 word)
          \<le> unat ((of_nat n + 4 :: 32 word) AND NOT 3)"
    by (rule unat_and_not_ge)
  with un show ?thesis by simp
qed

lemma overwrite_eq_map:
  "distinct (map fst ms) \<Longrightarrow> findIndex k ms < length ms \<Longrightarrow>
   ms[findIndex k ms := (fst (ms ! findIndex k ms), x)]
     = map (\<lambda>m. if fst m = k then (fst m, x) else m) ms"
proof (induction ms)
  case Nil
  then show ?case by simp
next
  case (Cons m ms)
  show ?case
  proof (cases "fst m = k")
    case True
    with Cons.prems(1) have "k \<notin> fst ` set ms" by simp
    then have "\<forall>m' \<in> set ms. fst m' \<noteq> k" by blast
    then have "map (\<lambda>m. if fst m = k then (fst m, x) else m) ms = ms"
      by (induction ms) auto
    with True show ?thesis by simp
  next
    case False
    with Cons show ?thesis by simp
  qed
qed

lemma map_fst_spec_setMember:
  "map fst (spec_setMember k x ms)
     = (if k \<in> fst ` set ms then map fst ms else map fst ms @ [k])"
  by (simp add: spec_setMember_def comp_def)

lemma length_spec_setMember:
  "length (spec_setMember k x ms) = (if k \<in> fst ` set ms then length ms else Suc (length ms))"
  by (simp add: spec_setMember_def)

lemma distinct_spec_setMember:
  "distinct (map fst ms) \<Longrightarrow> distinct (map fst (spec_setMember k x ms))"
  by (auto simp: map_fst_spec_setMember)

lemma filter_key_absent:
  "k \<notin> fst ` set ms \<Longrightarrow>
   filter (\<lambda>m. fst m = k) (map (\<lambda>m. if fst m = k then (fst m, x) else m) ms) = []"
  by (induction ms) auto

lemma filter_key_overwrite:
  "distinct (map fst ms) \<Longrightarrow> k \<in> fst ` set ms \<Longrightarrow>
   filter (\<lambda>m. fst m = k) (map (\<lambda>m. if fst m = k then (fst m, x) else m) ms)
     = [(k, x)]"
proof (induction ms)
  case Nil
  then show ?case by simp
next
  case (Cons m ms)
  show ?case
  proof (cases "fst m = k")
    case True
    with Cons.prems(1) have "k \<notin> fst ` set ms" by simp
    then show ?thesis using True by (simp add: filter_key_absent)
  next
    case False
    with Cons.prems have "k \<in> fst ` set ms" and "distinct (map fst ms)" by auto
    with Cons.IH False show ?thesis by simp
  qed
qed

lemma filter_key_spec_setMember:
  "distinct (map fst ms) \<Longrightarrow> filter (\<lambda>m. fst m = k) (spec_setMember k x ms) = [(k, x)]"
proof (cases "k \<in> fst ` set ms")
  case True
  assume "distinct (map fst ms)"
  with True show ?thesis by (simp add: spec_setMember_def filter_key_overwrite)
next
  case False
  then have "filter (\<lambda>m. fst m = k) ms = []" by (induction ms) auto
  with False show ?thesis by (simp add: spec_setMember_def)
qed

lemma filter_others_overwrite:
  "filter (\<lambda>m. fst m \<noteq> k) (map (\<lambda>m. if fst m = k then (fst m, x) else m) ms)
     = filter (\<lambda>m. fst m \<noteq> k) ms"
  by (induction ms) auto

lemma filter_others_spec_setMember:
  "filter (\<lambda>m. fst m \<noteq> k) (spec_setMember k x ms) = filter (\<lambda>m. fst m \<noteq> k) ms"
  by (simp add: spec_setMember_def filter_others_overwrite)

lemma setObjectMember_Object:
  assumes keys: "distinct (map fst ms)" and wf: "length ms \<le> unat c"
    and fits: "length ms + 4 < 2 ^ 32"
    and alloc_ok: "\<forall>n. alloc n"
  shows "setObjectMember alloc k x (Object ms c) =
           (Object (spec_setMember k x ms)
              (if k \<notin> fst ` set ms \<and> unat c \<le> length ms
               then (of_nat (length ms) + 4) AND NOT 3 else c),
            Inr ())"
proof (cases "k \<in> fst ` set ms")
  case True
  then have idx: "findIndex k ms < length ms" by (simp add: findIndex_less)
  with True keys show ?thesis
    by (simp add: setObjectMember_def overwrite_eq_map spec_setMember_def)
next
  case False
  then have idx: "findIndex k ms = length ms" by (rule findIndex_absent)
  show ?thesis
  proof (cases "unat c \<le> length ms")
    case full: True
    let ?c' = "(of_nat (length ms) + 4) AND NOT 3 :: 32 word"
    have "length ms < unat ?c'" using fits by (rule grow4_gt)
    with full have "\<not> ?c' \<le> c" by (simp add: word_le_nat_alt)
    then have "reserveObject alloc ?c' (Object ms c) = (Object ms ?c', Inr ())"
      using alloc_ok by (simp add: reserveObject_Object)
    with False full idx show ?thesis
      by (simp add: setObjectMember_def spec_setMember_def)
  next
    case room: False
    with False idx show ?thesis
      by (simp add: setObjectMember_def spec_setMember_def)
  qed
qed

lemma setObjectMember_wf:
  assumes wf: "length ms \<le> unat (c :: 32 word)" and fits: "length ms + 4 < 2 ^ 32"
  shows "length (spec_setMember k x ms)
           \<le> unat (if k \<notin> fst ` set ms \<and> unat c \<le> length ms
                   then (of_nat (length ms) + 4) AND NOT 3 else c)"
proof (cases "k \<notin> fst ` set ms \<and> unat c \<le> length ms")
  case True
  have "Suc (length ms) \<le> unat ((of_nat (length ms) + 4) AND NOT 3 :: 32 word)"
    using grow4_gt [OF fits] by (rule Suc_leI)
  with True show ?thesis by (simp only: length_spec_setMember if_True if_False simp_thms)
next
  case False
  with wf show ?thesis by (auto simp: length_spec_setMember)
qed

declare addMember.simps [simp del]

lemma reserveObject_wf:
  assumes alloc_ok: "\<forall>n. alloc n" and wf: "length ms \<le> unat c"
  shows "\<exists>c'. reserveObject alloc n (Object ms c) = (Object ms c', Inr ())
              \<and> length ms \<le> unat c'"
proof (cases "n \<le> c")
  case True
  with wf show ?thesis by (simp add: reserveObject_Object)
next
  case False
  then have "unat c < unat n" by (simp add: word_le_nat_alt)
  with wf have "length ms \<le> unat n" by simp
  with False alloc_ok show ?thesis by (simp add: reserveObject_Object)
qed

lemma invalidate_ByValue_pairs:
  "map (\<lambda>(k, a). (k, invalidate a)) (map (\<lambda>(k, x). (k, ByValue x)) others)
     = map (\<lambda>(k, x). (k, ByValue x)) others"
  by (induction others) auto

lemma addMember_by_value:
  assumes alloc_ok: "\<forall>n. alloc n"
  shows "distinct (map fst ms) \<Longrightarrow> length ms \<le> unat c \<Longrightarrow>
     length ms + length others + 5 < 2 ^ 32 \<Longrightarrow>
     \<exists>c'. addMember alloc name val (map (\<lambda>(k, x). (k, ByValue x)) others) (Object ms c)
            = Some (Object (foldl (\<lambda>ms (k, x). spec_setMember k x ms) ms
                              ((name, val) # others)) c',
                    Inr ())"
proof (induction others arbitrary: ms c name val)
  case Nil
  obtain c1 where r: "reserveObject alloc (of_nat (length ms + 1 + length ([] :: (string \<times> argument) list))) (Object ms c)
                       = (Object ms c1, Inr ())"
    and wf1: "length ms \<le> unat c1"
    using reserveObject_wf [OF alloc_ok Nil.prems(2)] by blast
  have s: "setObjectMember alloc name val (Object ms c1) =
           (Object (spec_setMember name val ms)
              (if name \<notin> fst ` set ms \<and> unat c1 \<le> length ms
               then (of_nat (length ms) + 4) AND NOT 3 else c1),
            Inr ())"
    using Nil.prems(1) wf1 _ alloc_ok by (rule setObjectMember_Object) (use Nil.prems(3) in simp)
  have "addMember alloc name val [] (Object ms c)
          = Some (Object (spec_setMember name val ms)
              (if name \<notin> fst ` set ms \<and> unat c1 \<le> length ms
               then (of_nat (length ms) + 4) AND NOT 3 else c1), Inr ())"
    by (subst addMember.simps)
       (simp only: ensureObject_Object Let_def members.simps r prod.case sum.case
          setMember_def s list.case)
  then show ?case by simp
next
  case (Cons p rest)
  let ?rest = "map (\<lambda>(k, x). (k, ByValue x)) rest"
  obtain c1 where r: "reserveObject alloc
                        (of_nat (length ms + 1 + length ((fst p, ByValue (snd p)) # ?rest)))
                        (Object ms c)
                       = (Object ms c1, Inr ())"
    and wf1: "length ms \<le> unat c1"
    using reserveObject_wf [OF alloc_ok Cons.prems(2)] by blast
  let ?c2 = "if name \<notin> fst ` set ms \<and> unat c1 \<le> length ms
               then (of_nat (length ms) + 4) AND NOT 3 else c1"
  let ?ms1 = "spec_setMember name val ms"
  have fits: "length ms + 4 < 2 ^ 32" using Cons.prems(3) by simp
  have s: "setObjectMember alloc name val (Object ms c1) = (Object ?ms1 ?c2, Inr ())"
    using Cons.prems(1) wf1 fits alloc_ok by (rule setObjectMember_Object)
  have wf2: "length ?ms1 \<le> unat ?c2" using wf1 fits by (rule setObjectMember_wf)
  have d2: "distinct (map fst ?ms1)" using Cons.prems(1) by (rule distinct_spec_setMember)
  have f2: "length ?ms1 + length rest + 5 < 2 ^ 32"
    using Cons.prems(3) by (simp add: length_spec_setMember)
  obtain c' where ih: "addMember alloc (fst p) (snd p) ?rest (Object ?ms1 ?c2)
            = Some (Object (foldl (\<lambda>ms (k, x). spec_setMember k x ms) ?ms1
                              ((fst p, snd p) # rest)) c',
                    Inr ())"
    using Cons.IH [OF d2 wf2 f2] by blast
  have rd: "\<And>b slots. readArgument slots (if b then invalidate (ByValue (snd p)) else ByValue (snd p))
                = Some (snd p)"
    by simp
  have rs: "\<And>b. (if b then map (\<lambda>(k, a). (k, invalidate a)) ?rest else ?rest) = ?rest"
    using invalidate_ByValue_pairs [of rest] by (simp only: if_cancel)
  have "addMember alloc name val ((fst p, ByValue (snd p)) # ?rest) (Object ms c)
          = addMember alloc (fst p) (snd p) ?rest (Object ?ms1 ?c2)"
    by (subst addMember.simps)
       (simp only: ensureObject_Object Let_def members.simps r
          prod.case sum.case setMember_def s list.case rd rs option.case)
  moreover have "map (\<lambda>(k, x). (k, ByValue x)) (p # rest) = (fst p, ByValue (snd p)) # ?rest"
    by (cases p) simp
  ultimately show ?case using ih by simp
qed

text \<open>
  On an object whose keys are unique, \<open>setMember (k, x)\<close> leaves exactly one member
  named \<open>k\<close>, with value \<open>x\<close>.  If a member named \<open>k\<close> existed, its value is
  overwritten in place: the member count, the order of the keys and the capacity are
  unchanged.  Otherwise the new member is appended after all existing members.  The
  keys stay unique and the other members keep their values and their order.
  \<open>addMember\<close> treats its name and value pairs one after the other in the same way
  when every value argument is a value that the call cannot change.  The object
  satisfies used count \<open>\<le>\<close> capacity, the counts fit \<open>uint32_t\<close>, and every growth of
  the storage is granted.
\<close>

lemma setMember_refines_spec:
  assumes keys: "distinct (map fst ms)" and wf: "length ms \<le> unat c"
    and fits: "length ms + length others + 5 < 2 ^ 32" and alloc_ok: "\<forall>n. alloc n"
  shows "(\<exists>c' ms'. setMember alloc k x (Object ms c) = (Object ms' c', Inr ())
       \<and> ms' = spec_setMember k x ms
       \<and> filter (\<lambda>m. fst m = k) ms' = [(k, x)]
       \<and> distinct (map fst ms')
       \<and> filter (\<lambda>m. fst m \<noteq> k) ms' = filter (\<lambda>m. fst m \<noteq> k) ms
       \<and> (k \<in> fst ` set ms \<longrightarrow>
            length ms' = length ms \<and> map fst ms' = map fst ms \<and> c' = c)
       \<and> (k \<notin> fst ` set ms \<longrightarrow> ms' = ms @ [(k, x)]))
     \<and> (\<exists>c'. addMember alloc k x (map (\<lambda>(k, x). (k, ByValue x)) others) (Object ms c)
            = Some (Object (foldl (\<lambda>ms (k, x). spec_setMember k x ms) ms ((k, x) # others))
                      c',
                    Inr ()))"
proof -
  let ?ms' = "spec_setMember k x ms"
  let ?c' = "if k \<notin> fst ` set ms \<and> unat c \<le> length ms
             then (of_nat (length ms) + 4) AND NOT 3 else c"
  have fits4: "length ms + 4 < 2 ^ 32" using fits by simp
  have run: "setMember alloc k x (Object ms c) = (Object ?ms' ?c', Inr ())"
    unfolding setMember_def using keys wf fits4 alloc_ok by (rule setObjectMember_Object)
  have one: "filter (\<lambda>m. fst m = k) ?ms' = [(k, x)]"
    using keys by (rule filter_key_spec_setMember)
  have uniq: "distinct (map fst ?ms')" using keys by (rule distinct_spec_setMember)
  have others: "filter (\<lambda>m. fst m \<noteq> k) ?ms' = filter (\<lambda>m. fst m \<noteq> k) ms"
    by (rule filter_others_spec_setMember)
  have ex: "k \<in> fst ` set ms \<longrightarrow>
            length ?ms' = length ms \<and> map fst ?ms' = map fst ms \<and> ?c' = c"
    by (simp add: length_spec_setMember map_fst_spec_setMember)
  have app: "k \<notin> fst ` set ms \<longrightarrow> ?ms' = ms @ [(k, x)]"
    by (simp add: spec_setMember_def)
  have first: "\<exists>c' ms'. setMember alloc k x (Object ms c) = (Object ms' c', Inr ())
       \<and> ms' = spec_setMember k x ms
       \<and> filter (\<lambda>m. fst m = k) ms' = [(k, x)]
       \<and> distinct (map fst ms')
       \<and> filter (\<lambda>m. fst m \<noteq> k) ms' = filter (\<lambda>m. fst m \<noteq> k) ms
       \<and> (k \<in> fst ` set ms \<longrightarrow>
            length ms' = length ms \<and> map fst ms' = map fst ms \<and> c' = c)
       \<and> (k \<notin> fst ` set ms \<longrightarrow> ms' = ms @ [(k, x)])"
    using run one uniq others ex app by blast
  have second: "\<exists>c'. addMember alloc k x (map (\<lambda>(k, x). (k, ByValue x)) others) (Object ms c)
            = Some (Object (foldl (\<lambda>ms (k, x). spec_setMember k x ms) ms ((k, x) # others))
                      c',
                    Inr ())"
    using alloc_ok keys wf fits by (rule addMember_by_value)
  from first second show ?thesis by blast
qed

text \<open>
  Claim C4 does not hold of \<open>addMember\<close> when a value argument after the first is a
  member value of the object itself.  The rest of the pack is bound by reference, and
  the value of a pair is constructed from its argument only when the pair is reached,
  after the pairs before it have been set.  On \<open>obj = {x: 5}\<close> with capacity 4,
  \<open>obj.addMember ("x", 1, "b", obj["x"])\<close> binds the last argument to the value of
  member 0, which is 5 when the call is made; the first pair overwrites it with 1, and
  the call leaves \<open>{x: 1, b: 1}\<close>, where setting \<open>b\<close> to the value 5 leaves
  \<open>{x: 1, b: 5}\<close>.
\<close>

theorem addMember_aliased:
  "addMember (\<lambda>n. True) ''x'' (Int32 1) [(''b'', SlotRef 0)] (Object [(''x'', Int32 5)] 4)
     = Some (Object [(''x'', Int32 1), (''b'', Int32 1)] 4, Inr ())
   \<and> readArgument (map snd (members (Object [(''x'', Int32 5)] 4))) (SlotRef 0)
     = Some (Int32 5)
   \<and> addMember (\<lambda>n. True) ''x'' (Int32 1) [(''b'', ByValue (Int32 5))]
       (Object [(''x'', Int32 5)] 4)
     = Some (Object [(''x'', Int32 1), (''b'', Int32 5)] 4, Inr ())"
  by (simp add: addMember.simps setMember_def setObjectMember_def reserveObject_def
        ensureObject_def findObjectMember_def)

subsection \<open>Object equality\<close>

lemma equalsMembers_Cons:
  "equalsMembers ((k, x) # ms) ns \<longleftrightarrow>
     (findIndex k ns < length ns \<and> equals x (snd (ns ! findIndex k ns))
      \<and> equalsMembers ms ns)"
  by (simp add: Let_def not_le)

lemma equalsMembers_iff:
  "equalsMembers ms ns \<longleftrightarrow>
     (\<forall>(k, x) \<in> set ms. findIndex k ns < length ns \<and> equals x (snd (ns ! findIndex k ns)))"
proof (induction ms)
  case Nil
  show ?case by simp
next
  case (Cons m ms)
  obtain k x where m: "m = (k, x)" by (cases m)
  show ?case unfolding m equalsMembers_Cons Cons.IH by simp
qed

lemma findIndex_unique:
  "distinct (map fst ns) \<Longrightarrow> (k, y) \<in> set ns \<Longrightarrow>
   findIndex k ns < length ns \<and> ns ! findIndex k ns = (k, y)"
proof (induction ns)
  case Nil
  then show ?case by simp
next
  case (Cons n ns)
  show ?case
  proof (cases "fst n = k")
    case True
    with Cons.prems(1) have "k \<notin> fst ` set ns" by simp
    then have "(k, y) \<notin> set ns" by force
    with Cons.prems(2) True show ?thesis by simp
  next
    case False
    with Cons show ?thesis by auto
  qed
qed

lemma findIndex_member:
  "findIndex k ns < length ns \<Longrightarrow> (k, snd (ns ! findIndex k ns)) \<in> set ns"
proof -
  assume a: "findIndex k ns < length ns"
  then have "fst (ns ! findIndex k ns) = k" by (rule findIndex_key)
  moreover have "ns ! findIndex k ns \<in> set ns" using a by simp
  ultimately show ?thesis by (metis prod.collapse)
qed

lemma equals_Object:
  "equals (Object ms c) (Object ns d) \<longleftrightarrow> (length ms = length ns \<and> equalsMembers ms ns)"
  by (subst equals.simps) (simp add: is_defs)

text \<open>
  Claim C5.  Two objects are equal if and only if they have the same member count and
  every member of the left one has a member of the same name in the right one with an
  equal value, whatever the order of the members.  The keys of the right operand are
  unique, as they are in every object.
\<close>

theorem object_equality:
  assumes keys: "distinct (map fst ns)"
  shows "equals (Object ms c) (Object ns d) \<longleftrightarrow>
           (length ms = length ns
            \<and> (\<forall>(k, x) \<in> set ms. \<exists>y. (k, y) \<in> set ns \<and> equals x y))"
proof -
  have "(findIndex k ns < length ns \<and> equals x (snd (ns ! findIndex k ns)))
          \<longleftrightarrow> (\<exists>y. (k, y) \<in> set ns \<and> equals x y)" for k x
  proof
    assume "findIndex k ns < length ns \<and> equals x (snd (ns ! findIndex k ns))"
    then show "\<exists>y. (k, y) \<in> set ns \<and> equals x y"
      using findIndex_member by blast
  next
    assume "\<exists>y. (k, y) \<in> set ns \<and> equals x y"
    then obtain y where y: "(k, y) \<in> set ns" "equals x y" by blast
    from findIndex_unique [OF keys y(1)] y(2)
    show "findIndex k ns < length ns \<and> equals x (snd (ns ! findIndex k ns))" by simp
  qed
  then show ?thesis by (simp add: equals_Object equalsMembers_iff)
qed

lemma int64_to_double_1: "int64_to_double 1 = 0x3FF0000000000000"
proof -
  have bl: "bitlen (Suc 0) = Suc 0" by (simp add: bitlen.simps)
  have rm: "roundMantissa (Suc 0) 0 = (2 ^ 52, 0)" by (simp add: roundMantissa_def)
  show ?thesis by (simp add: int64_to_double_def bl rm)
qed

lemma int64_to_double_2: "int64_to_double 2 = 0x4000000000000000"
proof -
  have bl: "bitlen 2 = 2" by (simp add: bitlen.simps)
  have rm: "roundMantissa 2 (Suc 0) = (2 * 2 ^ 51, Suc 0)"
    by (simp add: roundMantissa_def)
  show ?thesis by (simp add: int64_to_double_def bl rm)
qed

lemma equals_Int32_1: "equals (Int32 1) (Int32 1)"
proof -
  have n: "numericValue (Int32 1) = Inr 0x3FF0000000000000"
    by (simp add: numericValue_def is_defs getInt_def getInt32_def int64_to_double_1)
  show ?thesis
    using equals_numeric [OF _ _ n n] by (simp add: is_defs double_eq_def isNaN_def)
qed

lemma equals_Int32_2: "equals (Int32 2) (Int32 2)"
proof -
  have n: "numericValue (Int32 2) = Inr 0x4000000000000000"
    by (simp add: numericValue_def is_defs getInt_def getInt32_def int64_to_double_2)
  show ?thesis
    using equals_numeric [OF _ _ n n] by (simp add: is_defs double_eq_def isNaN_def)
qed

text \<open>\<open>{a:1, b:2} == {b:2, a:1}\<close> is true and \<open>{a:1} == {a:1, b:2}\<close> is false.\<close>

theorem object_equality_witness:
  "equals (Object [(''a'', Int32 1), (''b'', Int32 2)] 4)
          (Object [(''b'', Int32 2), (''a'', Int32 1)] 4)
   \<and> \<not> equals (Object [(''a'', Int32 1)] 4)
              (Object [(''a'', Int32 1), (''b'', Int32 2)] 4)"
proof -
  have a: "equals (Object [(''a'', Int32 1), (''b'', Int32 2)] 4)
                  (Object [(''b'', Int32 2), (''a'', Int32 1)] 4)"
    using object_equality [of "[(''b'', Int32 2), (''a'', Int32 1)]"
            "[(''a'', Int32 1), (''b'', Int32 2)]" 4 4]
          equals_Int32_1 equals_Int32_2
    by auto
  have b: "\<not> equals (Object [(''a'', Int32 1)] 4)
                    (Object [(''a'', Int32 1), (''b'', Int32 2)] 4)"
    using object_equality [of "[(''a'', Int32 1), (''b'', Int32 2)]" "[(''a'', Int32 1)]" 4 4]
    by simp
  from a b show ?thesis by blast
qed

section \<open>Deep copy\<close>

lemma extends_refl [simp]: "extends h h"
  by (simp add: extends_def)

lemma extends_trans: "extends h h1 \<Longrightarrow> extends h1 h2 \<Longrightarrow> extends h h2"
  by (auto simp: extends_def)














































subsection \<open>Equality is reflexive away from NaN\<close>













subsection \<open>A node holds one value\<close>




subsection \<open>Copying\<close>



text \<open>
  Copy assignment resets the destination before it copies.  When the source is an
  element of the destination, as in \<open>a = a[0]\<close> on \<open>a = [[null]]\<close>, the element
  and the buffer that holds it are freed before \<open>copyFrom\<close> reads them, which is
  undefined behaviour.  The statements about copy assignment below are about a
  destination that owns none of the buffers of the source.
\<close>

lemma copyAssign_own_element:
  "represents
     \<lparr>cells = Map.empty(1 := Some (Slots [NArray 2 1 8]), 2 := Some (Slots [NNull])),
        brk = 3\<rparr>
     (NArray 1 1 8) (Array [Array [Null] 8] 8)
   \<and> copyAssign 3
        \<lparr>cells = Map.empty(1 := Some (Slots [NArray 2 1 8]), 2 := Some (Slots [NNull])),
           brk = 3\<rparr>
        (NArray 1 1 8) (NArray 2 1 8)
      = None"
  by (simp add: copyAssign_def readSlots_def free_def numeral_3_eq_3)






end
